theory Spec2Isabelle
  imports Complex_Main "HOL-Library.Sublist"
begin

section \<open>Python strings\<close>

text \<open>
  A Python \<open>str\<close> is a sequence of code points. The model uses \<open>string\<close> and reads a
  \<open>char\<close> as one code point below 256 (Latin-1), which covers every literal of
  \<open>mcdonalds.py\<close>, the accented e of the coffee heading (code point 233) included.
  On these code points \<open>str.lower\<close> moves A-Z and the accented capitals 192-222 (but not
  the multiplication sign 215) up by 32, and \<open>str.strip\<close>/\<open>str.split\<close> treat the twelve
  code points of \<open>is_space\<close> as white space.
\<close>

definition lower_char :: "char \<Rightarrow> char" where
  "lower_char c =
     (let n = (of_char c :: nat)
      in if (65 \<le> n \<and> n \<le> 90) \<or> (192 \<le> n \<and> n \<le> 222 \<and> n \<noteq> 215)
         then char_of (n + 32) else c)"

definition lower :: "string \<Rightarrow> string" where
  "lower s = map lower_char s"

definition is_space :: "char \<Rightarrow> bool" where
  "is_space c = ((of_char c :: nat) \<in> {9, 10, 11, 12, 13, 28, 29, 30, 31, 32, 133, 160})"

definition strip :: "string \<Rightarrow> string" where
  "strip s = rev (dropWhile is_space (rev (dropWhile is_space s)))"

text \<open>\<open>s.replace(old, new)\<close>: every non-overlapping occurrence, scanning from the left.\<close>

function replace :: "string \<Rightarrow> string \<Rightarrow> string \<Rightarrow> string" where
  "replace old new [] = (if old = [] then new else [])"
| "replace old new (c # cs) =
     (if old = [] then new @ c # replace old new cs
      else if prefix old (c # cs) then new @ replace old new (drop (length old) (c # cs))
      else c # replace old new cs)"
  by pat_completeness auto
termination
  by (relation "measure (\<lambda>(old, new, s). length s)") (auto simp: neq_Nil_conv)

text \<open>\<open>a in b\<close> on strings: \<open>a\<close> occurs in \<open>b\<close> as a contiguous block.\<close>

fun is_substring :: "string \<Rightarrow> string \<Rightarrow> bool" where
  "is_substring a [] = (a = [])"
| "is_substring a (c # cs) = (prefix a (c # cs) \<or> is_substring a cs)"

text \<open>\<open>s.split()\<close>: the maximal runs of non-space characters, in order.\<close>

fun split_from :: "string \<Rightarrow> string \<Rightarrow> string list" where
  "split_from cur [] = (if cur = [] then [] else [cur])"
| "split_from cur (c # cs) =
     (if is_space c then (if cur = [] then split_from [] cs else cur # split_from [] cs)
      else split_from (cur @ [c]) cs)"

definition split :: "string \<Rightarrow> string list" where
  "split s = split_from [] s"

text \<open>\<open>str(n)\<close> for a natural number, as the f-strings that build ids use it.\<close>

fun str_of_nat :: "nat \<Rightarrow> string" where
  "str_of_nat n =
     (if n < 10 then [char_of (48 + n)]
      else str_of_nat (n div 10) @ [char_of (48 + n mod 10)])"

declare str_of_nat.simps [simp del]

section \<open>Python floats\<close>

datatype py_error = IndexError | KeyError | OverflowError

text \<open>The nearest integer, a tie going to the even one.\<close>

definition round_half_even :: "real \<Rightarrow> int" where
  "round_half_even y =
     (let f = \<lfloor>y\<rfloor>; d = y - of_int f
      in if d < 1 / 2 then f else if 1 / 2 < d then f + 1 else if even f then f else f + 1)"

text \<open>
  A Python \<open>float\<close> is an IEEE 754 double: a finite value, an infinity or not-a-number.
  The two zeros are one value here; \<open>+\<close> and \<open>*\<close> tell them apart only in the sign of a
  zero result.
\<close>

datatype pyfloat = Finite real | Pos_inf | Neg_inf | NaN

definition pow2 :: "int \<Rightarrow> real" where
  "pow2 k = (if 0 \<le> k then 2 ^ nat k else 1 / 2 ^ nat (- k))"

text \<open>
  The binary exponent of a positive number, kept between -1022 (where the subnormal
  doubles begin) and 1023: \<open>exponent_from e a\<close> halves or doubles \<open>a\<close> until it lies in
  \<open>[1, 2)\<close> or the exponent is at its bound, counting in \<open>e\<close>.
\<close>

function exponent_from :: "int \<Rightarrow> real \<Rightarrow> int" where
  "exponent_from e a =
     (if 2 \<le> a \<and> e < 1023 then exponent_from (e + 1) (a / 2)
      else if a < 1 \<and> - 1022 < e then exponent_from (e - 1) (a * 2)
      else e)"
  by pat_completeness auto
termination
  by (relation "measure (\<lambda>(e, a). if 2 \<le> a then nat (1023 - e)
                                   else if a < 1 then nat (e + 1022) else 0)")
     auto

declare exponent_from.simps [simp del]

text \<open>
  The double nearest to a real number, a tie going to the even significand: with the
  exponent \<open>e\<close> the doubles around \<open>x\<close> are the multiples of \<open>2 ^ (e - 52)\<close>, and a result
  of \<open>2 ^ 1024\<close> or more is an infinity. This is the rounding of every float operation
  and of a decimal literal.
\<close>

definition round_to_double :: "real \<Rightarrow> pyfloat" where
  "round_to_double x =
     (if x = 0 then Finite 0
      else
        let e = exponent_from 0 \<bar>x\<bar>;
            r = of_int (round_half_even (\<bar>x\<bar> / pow2 (e - 52))) * pow2 (e - 52)
        in if e < 1023 then Finite (if 0 < x then r else - r)
           else if pow2 1024 \<le> r then (if 0 < x then Pos_inf else Neg_inf)
           else Finite (if 0 < x then r else - r))"

text \<open>\<open>x + y\<close> on floats.\<close>

fun float_add :: "pyfloat \<Rightarrow> pyfloat \<Rightarrow> pyfloat" where
  "float_add (Finite a) (Finite b) = round_to_double (a + b)"
| "float_add NaN y = NaN"
| "float_add x NaN = NaN"
| "float_add Pos_inf Neg_inf = NaN"
| "float_add Neg_inf Pos_inf = NaN"
| "float_add Pos_inf y = Pos_inf"
| "float_add Neg_inf y = Neg_inf"
| "float_add x Pos_inf = Pos_inf"
| "float_add x Neg_inf = Neg_inf"

definition signed_inf :: "bool \<Rightarrow> pyfloat" where
  "signed_inf positive = (if positive then Pos_inf else Neg_inf)"

text \<open>\<open>x * y\<close> on floats.\<close>

fun float_mul :: "pyfloat \<Rightarrow> pyfloat \<Rightarrow> pyfloat" where
  "float_mul (Finite a) (Finite b) = round_to_double (a * b)"
| "float_mul NaN y = NaN"
| "float_mul x NaN = NaN"
| "float_mul Pos_inf (Finite b) = (if b = 0 then NaN else signed_inf (0 < b))"
| "float_mul Neg_inf (Finite b) = (if b = 0 then NaN else signed_inf (b < 0))"
| "float_mul (Finite a) Pos_inf = (if a = 0 then NaN else signed_inf (0 < a))"
| "float_mul (Finite a) Neg_inf = (if a = 0 then NaN else signed_inf (a < 0))"
| "float_mul Pos_inf Pos_inf = Pos_inf"
| "float_mul Neg_inf Neg_inf = Pos_inf"
| "float_mul Pos_inf Neg_inf = Neg_inf"
| "float_mul Neg_inf Pos_inf = Neg_inf"

text \<open>
  The conversion of an \<open>int\<close> that \<open>float * int\<close> performs first: the nearest double, and
  \<open>OverflowError\<close> ("int too large to convert to float") when that would be an infinity.
\<close>

definition float_of_int :: "int \<Rightarrow> py_error + pyfloat" where
  "float_of_int n =
     (case round_to_double (of_int n) of
        Finite r \<Rightarrow> Inr (Finite r)
      | _ \<Rightarrow> Inl OverflowError)"

section \<open>Data model\<close>

datatype item_size = SMALL | MEDIUM | LARGE

text \<open>
  \<open>price\<close> holds the decimal number that the price is made from (line 79 rounds it to
  two decimals); the Python float is the double nearest to it, \<open>round_to_double (price m)\<close>.
  \<open>order_total\<close> is the float that the order stores.
\<close>

record menu_item =
  menu_item_id :: string
  name :: string
  description :: string
  price :: real
  category :: string
  available_sizes :: "item_size list option"
  is_available :: bool

record order_item =
  menu_item :: menu_item
  quantity :: int
  chosen_size :: "item_size option"
  special_instructions :: "string option"

text \<open>\<open>created_at\<close> is the reading of the clock when the order was made.\<close>

record order =
  order_id :: string
  items :: "order_item list"
  created_at :: nat
  status :: string
  order_total :: pyfloat

text \<open>A Python \<open>dict\<close> keeps its keys in insertion order; storing under a key that is
  present keeps the key's place.\<close>

fun dict_set :: "('k \<times> 'v) list \<Rightarrow> 'k \<Rightarrow> 'v \<Rightarrow> ('k \<times> 'v) list" where
  "dict_set [] k v = [(k, v)]"
| "dict_set ((k', v') # kvs) k v =
     (if k' = k then (k, v) # kvs else (k', v') # dict_set kvs k v)"

section \<open>Order.calculate\_total\<close>

text \<open>
  The loop of lines 40-41 from the running \<open>total\<close>: each product and each sum is a float
  operation, and a quantity too large for a float makes the product raise.
\<close>

fun accumulate_total :: "pyfloat \<Rightarrow> order_item list \<Rightarrow> py_error + pyfloat" where
  "accumulate_total total' [] = Inr total'"
| "accumulate_total total' (item # rest) =
     (case float_of_int (quantity item) of
        Inl e \<Rightarrow> Inl e
      | Inr q \<Rightarrow>
          accumulate_total
            (float_add total' (float_mul (round_to_double (price (menu_item item))) q)) rest)"

definition calculate_total :: "order \<Rightarrow> py_error + pyfloat" where
  "calculate_total ord = accumulate_total (Finite 0) (items ord)"

section \<open>MenuScraper\<close>

text \<open>
  \<open>menu_data\<close> is the dict the scraper owns for its whole life; \<open>categories\<close> holds the ten
  fixed headings, each with the items scraped under it.
\<close>

record menu_scraper =
  menu_data :: "(string \<times> menu_item) list"
  categories :: "(string \<times> menu_item list) list"

definition mccafe_coffees :: string where
  "mccafe_coffees = ''McCaf'' @ [CHR 0xE9] @ '' Coffees''"

definition category_names :: "string list" where
  "category_names =
     [''Featured Favorites'', ''Breakfast'', ''Burgers'', ''Chicken & Fish Sandwiches'',
      ''McNuggets'', ''Fries & Sides'', ''Happy Meal'', mccafe_coffees, ''Sweets & Treats'',
      ''Beverages'']"

definition menu_scraper_init :: menu_scraper where
  "menu_scraper_init = \<lparr>menu_data = [], categories = map (\<lambda>c. (c, [])) category_names\<rparr>"

definition prices :: "(string \<times> real) list" where
  "prices =
     [(''Featured Favorites'', 5.99), (''Breakfast'', 4.99), (''Burgers'', 5.49),
      (''Chicken & Fish Sandwiches'', 5.99), (''McNuggets'', 4.99), (''Fries & Sides'', 2.99),
      (''Happy Meal'', 4.49), (mccafe_coffees, 3.99), (''Sweets & Treats'', 2.99),
      (''Beverages'', 1.99)]"

definition get_base_price :: "string \<Rightarrow> real" where
  "get_base_price cat = (case map_of prices cat of Some p \<Rightarrow> p | None \<Rightarrow> 4.99)"

definition descriptions :: "string \<Rightarrow> (string \<times> string) list" where
  "descriptions nm =
     [(''Burgers'', ''A delicious '' @ nm @ '' with fresh ingredients''),
      (''Breakfast'', ''A satisfying '' @ nm @ '' to start your day''),
      (''Beverages'', ''Refreshing '' @ nm),
      (''Sweets & Treats'', ''Sweet and tasty '' @ nm),
      (mccafe_coffees, ''Premium '' @ nm @ '' made with quality ingredients''),
      (''Fries & Sides'', ''Crispy and golden '' @ nm),
      (''Chicken & Fish Sandwiches'', ''Tender and flavorful '' @ nm),
      (''McNuggets'', ''Tender and juicy '' @ nm),
      (''Happy Meal'', ''Fun '' @ nm @ '' for kids''),
      (''Featured Favorites'', ''Popular '' @ nm @ '' that customers love'')]"

definition generate_description :: "string \<Rightarrow> string \<Rightarrow> string" where
  "generate_description nm cat =
     (case map_of (descriptions nm) cat of Some d \<Rightarrow> d | None \<Rightarrow> ''Tasty '' @ nm)"

definition sized_items :: "string list" where
  "sized_items = [''Beverages'', mccafe_coffees, ''Fries & Sides'']"

definition get_available_sizes :: "string \<Rightarrow> item_size list option" where
  "get_available_sizes cat =
     (if cat \<in> set sized_items then Some [SMALL, MEDIUM, LARGE] else None)"

text \<open>
  \<open>round(x, 2)\<close>: the nearest multiple of one hundredth, a tie going to the even
  multiple.
\<close>

definition round2 :: "real \<Rightarrow> real" where
  "round2 x = of_int (round_half_even (x * 100)) / 100"

text \<open>
  What the fetched page holds under an \<open>h2\<close> heading: no \<open>ul\<close> after it (then
  \<open>find_next\<close> returns \<open>None\<close> and the attribute access raises), or the texts of the
  \<open>li\<close> elements of the next \<open>ul\<close>. A heading that the page lacks has no entry.
\<close>

datatype heading_content = No_list | Listed "string list"

type_synonym page = "(string \<times> heading_content) list"

text \<open>
  The body of the inner loop, lines 72-92, for one \<open>li\<close> text. \<open>rng k\<close> is what the
  \<open>k\<close>-th call of \<open>random.uniform(0, 2)\<close> of this run returns.
\<close>

definition scrape_item :: "(nat \<Rightarrow> real) \<Rightarrow> string \<Rightarrow> menu_scraper \<times> nat \<Rightarrow> string
    \<Rightarrow> menu_scraper \<times> nat" where
  "scrape_item rng category_name st raw =
     (let sc = fst st; k = snd st; item_name = strip raw
      in if item_name = [] then (sc, k)
         else
           let iid = take 3 category_name @ ''_'' @ str_of_nat (length (menu_data sc) + 1);
               base_price = get_base_price category_name;
               p = round2 (base_price + rng k);
               mi = \<lparr>menu_item_id = iid, name = item_name,
                     description = generate_description item_name category_name,
                     price = p, category = category_name,
                     available_sizes = get_available_sizes category_name,
                     is_available = True\<rparr>
           in (sc\<lparr>menu_data := dict_set (menu_data sc) iid mi,
                  categories := map (\<lambda>(c, ms). if c = category_name then (c, ms @ [mi]) else (c, ms))
                                  (categories sc)\<rparr>,
               Suc k))"

text \<open>
  The outer loop over the headings. The first component tells whether an exception was
  raised; the scraper is returned as the loop left it, since what was stored before the
  exception stays stored.
\<close>

fun scrape_categories :: "(nat \<Rightarrow> real) \<Rightarrow> page \<Rightarrow> string list \<Rightarrow> menu_scraper \<times> nat
    \<Rightarrow> bool \<times> menu_scraper" where
  "scrape_categories rng pg [] st = (False, fst st)"
| "scrape_categories rng pg (c # cs) st =
     (case map_of pg c of
        None \<Rightarrow> scrape_categories rng pg cs st
      | Some No_list \<Rightarrow> (True, fst st)
      | Some (Listed raws) \<Rightarrow> scrape_categories rng pg cs (foldl (scrape_item rng c) st raws))"

text \<open>
  \<open>scrape_menu\<close> returns either the scraper's own \<open>menu_data\<close> dict (the same object on
  every call) or, from the \<open>except\<close> branch, a new empty dict. The result is therefore a
  reference, and its contents are read through the scraper.
\<close>

datatype menu_ref = Scraper_menu_data | Empty_dict

definition deref :: "menu_scraper \<Rightarrow> menu_ref \<Rightarrow> (string \<times> menu_item) list" where
  "deref sc r = (case r of Scraper_menu_data \<Rightarrow> menu_data sc | Empty_dict \<Rightarrow> [])"

text \<open>\<open>fetched = None\<close>: \<open>requests.get\<close> raised.\<close>

definition scrape_menu :: "page option \<Rightarrow> (nat \<Rightarrow> real) \<Rightarrow> menu_scraper
    \<Rightarrow> menu_ref \<times> menu_scraper" where
  "scrape_menu fetched rng sc =
     (case fetched of
        None \<Rightarrow> (Empty_dict, sc)
      | Some pg \<Rightarrow>
          (case scrape_categories rng pg (map fst (categories sc)) (sc, 0) of
             (raised, sc') \<Rightarrow> (if raised then Empty_dict else Scraper_menu_data, sc')))"

definition constant_source :: "real \<Rightarrow> nat \<Rightarrow> real" where
  "constant_source u k = u"

section \<open>DriveThruAI\<close>

record drive_thru_ai =
  menu_scraper :: menu_scraper
  menu :: menu_ref
  current_order :: "order option"
  orders_history :: "order list"

definition menu_items :: "drive_thru_ai \<Rightarrow> (string \<times> menu_item) list" where
  "menu_items s = deref (menu_scraper s) (menu s)"

definition drive_thru_init :: "page option \<Rightarrow> (nat \<Rightarrow> real) \<Rightarrow> drive_thru_ai" where
  "drive_thru_init fetched rng =
     (case scrape_menu fetched rng menu_scraper_init of
        (r, sc) \<Rightarrow> \<lparr>menu_scraper = sc, menu = r, current_order = None, orders_history = []\<rparr>)"

definition refresh_menu :: "page option \<Rightarrow> (nat \<Rightarrow> real) \<Rightarrow> drive_thru_ai \<Rightarrow> drive_thru_ai" where
  "refresh_menu fetched rng s =
     (case scrape_menu fetched rng (menu_scraper s) of (r, sc) \<Rightarrow> s\<lparr>menu_scraper := sc, menu := r\<rparr>)"

definition start_new_order :: "nat \<Rightarrow> drive_thru_ai \<Rightarrow> order \<times> drive_thru_ai" where
  "start_new_order now s =
     (let ord = \<lparr>order_id = ''order_'' @ str_of_nat (length (orders_history s) + 1),
                 items = [], created_at = now, status = ''in_progress'',
                 order_total = Finite 0\<rparr>
      in (ord, s\<lparr>current_order := Some ord\<rparr>))"

text \<open>
  \<open>add_item_to_order\<close> has three \<open>return False\<close> statements; \<open>add_item_checked\<close> tells
  them apart, and \<open>add_item_to_order\<close> forgets which one it was, as the source does.
  Line 169 appends the line before line 170 computes the total: when \<open>calculate_total\<close>
  raises, the line stays in the order and the stored total is the old one. The session
  is returned with every outcome, since the caller keeps the object.
\<close>

datatype add_failure = No_active_order | Unknown_item | Invalid_size

datatype add_outcome = Refused add_failure | Raised py_error | Appended

definition size_in :: "item_size option \<Rightarrow> item_size list \<Rightarrow> bool" where
  "size_in sz szs = (case sz of None \<Rightarrow> False | Some z \<Rightarrow> z \<in> set szs)"

definition add_item_checked :: "drive_thru_ai \<Rightarrow> string \<Rightarrow> int \<Rightarrow> item_size option
    \<Rightarrow> string option \<Rightarrow> add_outcome \<times> drive_thru_ai" where
  "add_item_checked s iid qty sz instr =
     (case current_order s of
        None \<Rightarrow> (Refused No_active_order, s)
      | Some ord \<Rightarrow>
          (case map_of (menu_items s) iid of
             None \<Rightarrow> (Refused Unknown_item, s)
           | Some mi \<Rightarrow>
               if (case available_sizes mi of
                     None \<Rightarrow> False
                   | Some zs \<Rightarrow> zs \<noteq> [] \<and> \<not> size_in sz zs)
               then (Refused Invalid_size, s)
               else
                 let ord1 = ord\<lparr>items := items ord @
                       [\<lparr>menu_item = mi, quantity = qty, chosen_size = sz,
                         special_instructions = instr\<rparr>]\<rparr>
                 in case calculate_total ord1 of
                      Inl e \<Rightarrow> (Raised e, s\<lparr>current_order := Some ord1\<rparr>)
                    | Inr t \<Rightarrow> (Appended, s\<lparr>current_order := Some (ord1\<lparr>order_total := t\<rparr>)\<rparr>)))"

definition add_item_to_order :: "drive_thru_ai \<Rightarrow> string \<Rightarrow> int \<Rightarrow> item_size option
    \<Rightarrow> string option \<Rightarrow> (py_error + bool) \<times> drive_thru_ai" where
  "add_item_to_order s iid qty sz instr =
     (case add_item_checked s iid qty sz instr of
        (Refused f, s') \<Rightarrow> (Inr False, s')
      | (Raised e, s') \<Rightarrow> (Inl e, s')
      | (Appended, s') \<Rightarrow> (Inr True, s'))"

text \<open>
  \<open>xs.pop(i)\<close>: a negative index counts from the end, and an index outside
  \<open>-len(xs) .. len(xs) - 1\<close> raises \<open>IndexError\<close>.
\<close>

definition list_pop :: "'a list \<Rightarrow> int \<Rightarrow> py_error + 'a list" where
  "list_pop xs i =
     (let n = int (length xs); j = (if i < 0 then i + n else i)
      in if 0 \<le> j \<and> j < n then Inr (take (nat j) xs @ drop (Suc (nat j)) xs)
         else Inl IndexError)"

text \<open>
  \<open>pop\<close> raises before it changes the list; \<open>calculate_total\<close> raises after the line is
  gone, and then the stored total is the old one.
\<close>

definition remove_item_from_order :: "drive_thru_ai \<Rightarrow> int \<Rightarrow> (py_error + bool) \<times> drive_thru_ai" where
  "remove_item_from_order s item_index =
     (case current_order s of
        None \<Rightarrow> (Inr False, s)
      | Some ord \<Rightarrow>
          if int (length (items ord)) \<le> item_index then (Inr False, s)
          else
            (case list_pop (items ord) item_index of
               Inl e \<Rightarrow> (Inl e, s)
             | Inr rest \<Rightarrow>
                 let ord1 = ord\<lparr>items := rest\<rparr>
                 in case calculate_total ord1 of
                      Inl e \<Rightarrow> (Inl e, s\<lparr>current_order := Some ord1\<rparr>)
                    | Inr t \<Rightarrow> (Inr True, s\<lparr>current_order := Some (ord1\<lparr>order_total := t\<rparr>)\<rparr>)))"

definition checkout :: "drive_thru_ai \<Rightarrow> bool \<times> drive_thru_ai" where
  "checkout s =
     (case current_order s of
        None \<Rightarrow> (False, s)
      | Some ord \<Rightarrow>
          if items ord = [] then (False, s)
          else (True, s\<lparr>orders_history := orders_history s @ [ord\<lparr>status := ''completed''\<rparr>],
                        current_order := None\<rparr>))"

section \<open>The tool add\_to\_order\<close>

text \<open>Lines 252-255 and 259-262: how the request and a menu name are cleaned up.\<close>

definition clean_input_name :: "string \<Rightarrow> string" where
  "clean_input_name item_name =
     replace '' meal'' [] (replace '' with '' '' w/ '' (replace '' and '' '' & ''
       (strip (lower item_name))))"

definition clean_menu_name :: "string \<Rightarrow> string" where
  "clean_menu_name nm =
     replace '' meal'' [] (replace '' with '' '' w/ '' (replace '' and '' '' & '' (lower nm)))"

text \<open>Line 272: the number of words the two names share.\<close>

definition score :: "string \<Rightarrow> string \<Rightarrow> nat" where
  "score input_name menu_name =
     length (remdups (filter (\<lambda>t. t \<in> set (split menu_name)) (split input_name)))"

definition partial_match :: "string \<Rightarrow> string \<Rightarrow> bool" where
  "partial_match input_name menu_name =
     (is_substring input_name menu_name \<or> is_substring menu_name input_name)"

text \<open>
  The loop of lines 257-275 over \<open>menu.items()\<close>. It returns \<open>item_id\<close> and
  \<open>best_match\<close> as they stand when the loop ends, by \<open>break\<close> or at the end of the menu.
\<close>

fun find_item_loop :: "string \<Rightarrow> (string \<times> menu_item) list \<Rightarrow> string option \<Rightarrow> nat
    \<Rightarrow> string option \<times> string option" where
  "find_item_loop input_name [] best_match best_score = (None, best_match)"
| "find_item_loop input_name ((i, item) # rest) best_match best_score =
     (let menu_name = clean_menu_name (name item)
      in if input_name = menu_name then (Some i, best_match)
         else if partial_match input_name menu_name
                 \<and> best_score < score input_name menu_name
              then find_item_loop input_name rest (Some i) (score input_name menu_name)
              else find_item_loop input_name rest best_match best_score)"

text \<open>The truth value of an optional string: \<open>None\<close> and the empty string are false.\<close>

definition truthy :: "string option \<Rightarrow> bool" where
  "truthy x = (case x of None \<Rightarrow> False | Some v \<Rightarrow> v \<noteq> [])"

text \<open>
  Lines 247-282: the id that the rest of \<open>add_to_order\<close> works with, or \<open>None\<close> when the
  tool answers that the item is not on the menu.
\<close>

definition find_item :: "(string \<times> menu_item) list \<Rightarrow> string \<Rightarrow> string option" where
  "find_item mn item_name =
     (case find_item_loop (clean_input_name item_name) mn None 0 of
        (item_id, best_match) \<Rightarrow>
          let item_id' = (if \<not> truthy item_id \<and> truthy best_match then best_match else item_id)
          in if \<not> truthy item_id' then None else item_id')"

text \<open>One constructor for each \<open>return\<close> of the tool, with what its message is made of.\<close>

datatype reply =
    Not_found string
  | Clarify_milk
  | Clarify_coffee
  | Ask_size string "item_size list"
  | Added int string "item_size option"
  | Could_not_add add_failure

text \<open>
  An exception of \<open>add_item_to_order\<close> passes through the tool; the first component of
  the result is the exception or the reply.
\<close>

definition add_to_order :: "nat \<Rightarrow> drive_thru_ai \<Rightarrow> string \<Rightarrow> int \<Rightarrow> item_size option
    \<Rightarrow> string option \<Rightarrow> (py_error + reply) \<times> drive_thru_ai" where
  "add_to_order now s item_name qty sz instr =
     (let s1 = (if current_order s = None then snd (start_new_order now s) else s)
      in case find_item (menu_items s1) item_name of
           None \<Rightarrow> (Inr (Not_found item_name), s1)
         | Some iid \<Rightarrow>
             (case map_of (menu_items s1) iid of
                None \<Rightarrow> (Inl KeyError, s1)
              | Some mi \<Rightarrow>
                  if is_substring ''milk'' (lower (name mi)) then (Inr Clarify_milk, s1)
                  else if is_substring ''coffee'' (lower (name mi)) then (Inr Clarify_coffee, s1)
                  else
                    (case (available_sizes mi, sz) of
                       (Some (z # zs), None) \<Rightarrow> (Inr (Ask_size (name mi) (z # zs)), s1)
                     | _ \<Rightarrow>
                         (case add_item_checked s1 iid qty sz instr of
                            (Refused f, s2) \<Rightarrow> (Inr (Could_not_add f), s2)
                          | (Raised e, s2) \<Rightarrow> (Inl e, s2)
                          | (Appended, s2) \<Rightarrow> (Inr (Added qty (name mi) sz), s2)))))"

section \<open>Sequences of mutations\<close>

text \<open>
  A mutation is a call of \<open>add_item_to_order\<close> or of \<open>remove_item_from_order\<close>; it
  succeeds when the call returns \<open>True\<close>, so a call that returns \<open>False\<close> or raises is not
  one. \<open>states_after s ms\<close> lists the state after each mutation of \<open>ms\<close>, provided every
  one of them succeeds.
\<close>

datatype mutation =
    Add_line string int "item_size option" "string option"
  | Remove_line int

fun apply_mutation :: "drive_thru_ai \<Rightarrow> mutation \<Rightarrow> drive_thru_ai option" where
  "apply_mutation s (Add_line iid qty sz instr) =
     (case add_item_to_order s iid qty sz instr of
        (Inr True, s') \<Rightarrow> Some s'
      | _ \<Rightarrow> None)"
| "apply_mutation s (Remove_line i) =
     (case remove_item_from_order s i of
        (Inr True, s') \<Rightarrow> Some s'
      | _ \<Rightarrow> None)"

fun states_after :: "drive_thru_ai \<Rightarrow> mutation list \<Rightarrow> drive_thru_ai list option" where
  "states_after s [] = Some []"
| "states_after s (m # ms) =
     (case apply_mutation s m of
        None \<Rightarrow> None
      | Some s' \<Rightarrow> (case states_after s' ms of None \<Rightarrow> None | Some ss \<Rightarrow> Some (s' # ss)))"

text \<open>
  The sum of the claim, price times quantity over the lines of the order, in exact
  arithmetic on the decimal prices, and on the doubles that the prices are in Python.
\<close>

definition lines_sum :: "order \<Rightarrow> real" where
  "lines_sum ord = (\<Sum>l\<leftarrow>items ord. price (menu_item l) * of_int (quantity l))"

definition float_value :: "pyfloat \<Rightarrow> real" where
  "float_value x = (case x of Finite r \<Rightarrow> r | _ \<Rightarrow> 0)"

definition lines_sum_of_doubles :: "order \<Rightarrow> real" where
  "lines_sum_of_doubles ord =
     (\<Sum>l\<leftarrow>items ord. float_value (round_to_double (price (menu_item l))) * of_int (quantity l))"

text \<open>The stored total is what \<open>calculate_total\<close> returns for the lines as they are.\<close>

definition total_matches :: "drive_thru_ai \<Rightarrow> bool" where
  "total_matches s =
     (case current_order s of
        None \<Rightarrow> False
      | Some ord \<Rightarrow> calculate_total ord = Inr (order_total ord))"

section \<open>Notions used in the statements\<close>

text \<open>The cleaned-up name of a menu entry, as the loop compares it with the request.\<close>

definition entry_name :: "string \<times> menu_item \<Rightarrow> string" where
  "entry_name e = clean_menu_name (name (snd e))"

text \<open>
  An entry as lines 75-91 make it: under some heading \<open>c\<close>, for a non-empty name, with the
  \<open>k\<close>-th random number, when the dict held \<open>n - 1\<close> entries.
\<close>

definition built_entry :: "(nat \<Rightarrow> real) \<Rightarrow> string \<times> menu_item \<Rightarrow> bool" where
  "built_entry rng e =
     (\<exists>c k n nm. nm \<noteq> [] \<and> e = (take 3 c @ ''_'' @ str_of_nat n,
        \<lparr>menu_item_id = take 3 c @ ''_'' @ str_of_nat n, name = nm,
         description = generate_description nm c,
         price = round2 (get_base_price c + rng k), category = c,
         available_sizes = get_available_sizes c, is_available = True\<rparr>))"

definition price_in_range :: "menu_item \<Rightarrow> bool" where
  "price_in_range mi =
     (get_base_price (category mi) \<le> price mi \<and> price mi \<le> get_base_price (category mi) + 2)"

section \<open>Example sessions\<close>

text \<open>
  A page with one burger and one side, scraped with every random number equal to one
  half: the catalog is \<open>Bur_1\<close> (Big Mac, 5.99, no sizes) and \<open>Fri_2\<close> (World Famous
  Fries, 3.49, three sizes).
\<close>

definition ex_page :: page where
  "ex_page = [(''Burgers'', Listed [''Big Mac'']), (''Fries & Sides'', Listed [''World Famous Fries''])]"

definition ex_no_order :: drive_thru_ai where
  "ex_no_order = drive_thru_init (Some ex_page) (constant_source (1 / 2))"

definition ex_session :: drive_thru_ai where
  "ex_session = snd (start_new_order 0 ex_no_order)"

definition ex_mutations :: "mutation list" where
  "ex_mutations =
     [Add_line ''Bur_1'' 2 None None, Add_line ''Fri_2'' 1 (Some LARGE) None, Remove_line 0]"

text \<open>Three adds to the empty order: one Big Mac, two large fries, three Big Macs.\<close>

definition ex_adds :: "mutation list" where
  "ex_adds =
     [Add_line ''Bur_1'' 1 None None, Add_line ''Fri_2'' 2 (Some LARGE) None,
      Add_line ''Bur_1'' 3 None None]"

definition ex_big_mac :: menu_item where
  "ex_big_mac =
     \<lparr>menu_item_id = ''Bur_1'', name = ''Big Mac'',
      description = ''A delicious Big Mac with fresh ingredients'', price = 599 / 100,
      category = ''Burgers'', available_sizes = None, is_available = True\<rparr>"

definition ex_fries :: menu_item where
  "ex_fries =
     \<lparr>menu_item_id = ''Fri_2'', name = ''World Famous Fries'',
      description = ''Crispy and golden World Famous Fries'', price = 349 / 100,
      category = ''Fries & Sides'', available_sizes = Some [SMALL, MEDIUM, LARGE],
      is_available = True\<rparr>"

text \<open>The same session after \<open>refresh_menu\<close> on the same page.\<close>

definition ex_refreshed :: drive_thru_ai where
  "ex_refreshed = refresh_menu (Some ex_page) (constant_source (1 / 2)) ex_no_order"

text \<open>A catalog of one burger, built with the random number 1.996.\<close>

definition ex_top :: drive_thru_ai where
  "ex_top = drive_thru_init (Some [(''Burgers'', Listed [''Big Mac''])]) (constant_source (499 / 250))"

text \<open>
  The session \<open>ex_session\<close> with the lines \<open>ls\<close> and the total \<open>t\<close> in its order, and
  the states that the two sequences of mutations go through. The totals are the doubles
  that Python prints as 11.98, 15.47, 3.49, 5.99, 12.97 and 30.939999999999998.
\<close>

definition ex_line :: "menu_item \<Rightarrow> int \<Rightarrow> item_size option \<Rightarrow> order_item" where
  "ex_line m q z = \<lparr>menu_item = m, quantity = q, chosen_size = z, special_instructions = None\<rparr>"

definition ex_state :: "order_item list \<Rightarrow> pyfloat \<Rightarrow> drive_thru_ai" where
  "ex_state ls t =
     ex_session\<lparr>current_order := Some
       \<lparr>order_id = ''order_1'', items = ls, created_at = 0, status = ''in_progress'',
        order_total = t\<rparr>\<rparr>"

definition ex_after_1 :: drive_thru_ai where
  "ex_after_1 =
     ex_state [ex_line ex_big_mac 2 None] (Finite (3372070220993659 / 281474976710656))"

definition ex_after_2 :: drive_thru_ai where
  "ex_after_2 =
     ex_state [ex_line ex_big_mac 2 None, ex_line ex_fries 1 (Some LARGE)]
       (Finite (8708835779427697 / 562949953421312))"

definition ex_after_3 :: drive_thru_ai where
  "ex_after_3 =
     ex_state [ex_line ex_fries 1 (Some LARGE)] (Finite (1964695337440379 / 562949953421312))"

definition ex_add_1 :: drive_thru_ai where
  "ex_add_1 =
     ex_state [ex_line ex_big_mac 1 None] (Finite (3372070220993659 / 562949953421312))"

definition ex_add_2 :: drive_thru_ai where
  "ex_add_2 =
     ex_state [ex_line ex_big_mac 1 None, ex_line ex_fries 2 (Some LARGE)]
       (Finite (7301460895874417 / 562949953421312))"

definition ex_add_3 :: drive_thru_ai where
  "ex_add_3 =
     ex_state [ex_line ex_big_mac 1 None, ex_line ex_fries 2 (Some LARGE),
               ex_line ex_big_mac 3 None]
       (Finite (544302236214231 / 17592186044416))"

text \<open>A hand-made item and session, for menus that name their ids freely.\<close>

definition ex_item :: "string \<Rightarrow> string \<Rightarrow> menu_item" where
  "ex_item i nm =
     \<lparr>menu_item_id = i, name = nm, description = ''Tasty '' @ nm, price = 499 / 100,
      category = ''Other'', available_sizes = None, is_available = True\<rparr>"

definition ex_session_with :: "(string \<times> menu_item) list \<Rightarrow> order option \<Rightarrow> drive_thru_ai" where
  "ex_session_with mn cur =
     \<lparr>menu_scraper = \<lparr>menu_data = mn, categories = []\<rparr>, menu = Scraper_menu_data,
      current_order = cur, orders_history = []\<rparr>"

definition ex_small_only :: menu_item where
  "ex_small_only = (ex_item ''X_1'' ''Espresso'')\<lparr>available_sizes := Some [SMALL]\<rparr>"

definition ex_order :: order where
  "ex_order =
     \<lparr>order_id = ''order_1'',
      items = [\<lparr>menu_item = ex_big_mac, quantity = 1, chosen_size = None,
               special_instructions = None\<rparr>],
      created_at = 7, status = ''in_progress'',
      order_total = Finite (3372070220993659 / 562949953421312)\<rparr>"

text \<open>An order of Big Macs only, one line for each quantity of the list.\<close>

definition ex_big_macs :: "int list \<Rightarrow> order" where
  "ex_big_macs qs =
     \<lparr>order_id = ''order_1'', items = map (\<lambda>q. ex_line ex_big_mac q None) qs,
      created_at = 7, status = ''in_progress'', order_total = Finite 0\<rparr>"

definition ex_coffee_name :: string where
  "ex_coffee_name = ''McCaf'' @ [CHR 0xE9] @ '' Premium Roast Coffee''"

definition ex_sandwiches :: "(string \<times> menu_item) list" where
  "ex_sandwiches =
     [(''S1'', ex_item ''S1'' ''Chick''),
      (''S2'', ex_item ''S2'' ''McChicken Sandwich''),
      (''S3'', ex_item ''S3'' ''Spicy McChicken Sandwich'')]"

definition ex_coffee_menu :: "(string \<times> menu_item) list" where
  "ex_coffee_menu = [(''C1'', ex_item ''C1'' ex_coffee_name)]"

definition ex_nuggets_menu :: "(string \<times> menu_item) list" where
  "ex_nuggets_menu = [(''McN_1'', ex_item ''McN_1'' ''Chicken McNuggets'')]"

definition ex_burger_menu :: "(string \<times> menu_item) list" where
  "ex_burger_menu =
     [(''F1'', ex_item ''F1'' ''French Fries''),
      (''B1'', ex_item ''B1'' ''Big Mac''),
      (''B2'', ex_item ''B2'' ''Big Mac Meal'')]"

text \<open>A page that lists the Big Mac under two headings, as a menu page may.\<close>

definition ex_page_twice :: page where
  "ex_page_twice =
     [(''Featured Favorites'', Listed [''Big Mac'']), (''Burgers'', Listed [''Big Mac''])]"

definition ex_menu_twice :: "(string \<times> menu_item) list" where
  "ex_menu_twice = menu_items (drive_thru_init (Some ex_page_twice) (constant_source 0))"

section \<open>Floats that overflow\<close>

lemma exponent_from_top:
  "e \<le> 1023 \<Longrightarrow> pow2 (1024 - e) \<le> a \<Longrightarrow> exponent_from e a = 1023"
proof (induction e a rule: exponent_from.induct)
  case (1 e a)
  show ?case
  proof (cases "e < 1023")
    case True
    then have p: "pow2 (1024 - e) = 2 * pow2 (1024 - (e + 1))"
      by (simp add: pow2_def nat_diff_distrib flip: power_Suc)
    have "1 \<le> pow2 (1024 - (e + 1))" using True by (simp add: pow2_def)
    with p "1.prems"(2) have a: "2 \<le> a" and h: "pow2 (1024 - (e + 1)) \<le> a / 2" by simp_all
    from True a have "exponent_from e a = exponent_from (e + 1) (a / 2)"
      by (simp add: exponent_from.simps [of e a])
    also have "\<dots> = 1023" using True a h by (intro "1.IH"(1)) simp_all
    finally show ?thesis .
  next
    case False
    with "1.prems" have e: "e = 1023" by simp
    with "1.prems"(2) have "2 \<le> a" by (simp add: pow2_def)
    with e show ?thesis by (simp add: exponent_from.simps [of 1023 a])
  qed
qed

lemma round_to_double_overflow:
  assumes "pow2 1024 \<le> x"
  shows "round_to_double x = Pos_inf"
proof -
  have pos: "0 < x" using assms by (simp add: pow2_def)
  have e: "exponent_from 0 \<bar>x\<bar> = 1023"
    using assms pos by (intro exponent_from_top) simp_all
  have q: "pow2 1024 = 2 ^ 53 * pow2 971" by (simp add: pow2_def flip: power_add)
  have "2 ^ 53 \<le> x / pow2 971"
    using assms unfolding q by (simp add: pow2_def field_simps)
  then have f: "(2 ^ 53 :: int) \<le> \<lfloor>x / pow2 971\<rfloor>"
    by (simp add: le_floor_iff)
  have g: "\<lfloor>x / pow2 971\<rfloor> \<le> round_half_even (x / pow2 971)"
    by (simp add: round_half_even_def Let_def)
  from f g have "(2 ^ 53 :: int) \<le> round_half_even (x / pow2 971)" by (rule order_trans)
  then have "(2 ^ 53 :: real) \<le> of_int (round_half_even (x / pow2 971))"
    by (metis of_int_le_iff of_int_numeral of_int_power)
  then have "pow2 1024 \<le> of_int (round_half_even (x / pow2 971)) * pow2 971"
    unfolding q by (intro mult_right_mono) (simp_all add: pow2_def)
  with pos e show ?thesis
    by (simp add: round_to_double_def Let_def)
qed

lemma float_of_int_overflow: "2 ^ 1024 \<le> n \<Longrightarrow> float_of_int n = Inl OverflowError"
proof -
  assume "2 ^ 1024 \<le> n"
  then have "(2 ^ 1024 :: real) \<le> of_int n"
    by (metis of_int_le_iff of_int_numeral of_int_power)
  then have "round_to_double (of_int n) = Pos_inf"
    by (intro round_to_double_overflow) (simp add: pow2_def)
  then show ?thesis by (simp add: float_of_int_def)
qed

lemma accumulate_total_error: "accumulate_total t ls = Inl e \<Longrightarrow> e = OverflowError"
  by (induction ls arbitrary: t) (auto simp: float_of_int_def split: sum.splits pyfloat.splits)

lemma accumulate_total_append:
  "accumulate_total t (ls @ [l]) =
     (case accumulate_total t ls of Inl e \<Rightarrow> Inl e | Inr t' \<Rightarrow> accumulate_total t' [l])"
  by (induction ls arbitrary: t) (auto split: sum.splits)

text \<open>
  A quantity of \<open>2 ^ 1024\<close> or more cannot become a float. \<open>add_item_to_order\<close> then
  raises after the line is in the order, and the stored total is the one from before.
\<close>

lemma calculate_total_overflow:
  assumes "2 ^ 1024 \<le> quantity l"
  shows "calculate_total (ord\<lparr>items := items ord @ [l]\<rparr>) = Inl OverflowError"
proof (cases "accumulate_total (Finite 0) (items ord)")
  case (Inl e)
  with accumulate_total_error [OF Inl] show ?thesis
    by (simp add: calculate_total_def accumulate_total_append)
next
  case (Inr t)
  with float_of_int_overflow [OF assms] show ?thesis
    by (simp add: calculate_total_def accumulate_total_append)
qed

lemma add_item_to_order_overflow:
  assumes "current_order s = Some ord" and "map_of (menu_items s) iid = Some mi"
    and "available_sizes mi = None" and "2 ^ 1024 \<le> qty"
  shows "add_item_to_order s iid qty sz instr =
           (Inl OverflowError,
            s\<lparr>current_order := Some (ord\<lparr>items := items ord @
               [\<lparr>menu_item = mi, quantity = qty, chosen_size = sz,
                 special_instructions = instr\<rparr>]\<rparr>)\<rparr>)"
proof -
  have "calculate_total (ord\<lparr>items := items ord @
          [\<lparr>menu_item = mi, quantity = qty, chosen_size = sz, special_instructions = instr\<rparr>]\<rparr>)
        = Inl OverflowError"
    using assms(4) by (intro calculate_total_overflow) simp
  with assms(1,2,3) show ?thesis
    by (simp add: add_item_to_order_def add_item_checked_def Let_def)
qed

section \<open>The example sessions, step by step\<close>

lemmas float_eval =
  round_to_double_def exponent_from.simps pow2_def round_half_even_def float_of_int_def
  signed_inf_def Let_def

lemma ex_menu: "menu_items ex_session = [(''Bur_1'', ex_big_mac), (''Fri_2'', ex_fries)]"
  by code_simp

lemma ex_current: "current_order ex_session =
    Some \<lparr>order_id = ''order_1'', items = [], created_at = 0, status = ''in_progress'',
          order_total = Finite 0\<rparr>"
  by code_simp

lemma menu_items_current_order [simp]: "menu_items (s\<lparr>current_order := c\<rparr>) = menu_items s"
  by (simp add: menu_items_def)

lemma ex_session_state: "ex_session = ex_state [] (Finite 0)"
proof -
  have "ex_session = ex_session\<lparr>current_order := current_order ex_session\<rparr>" by simp
  then show ?thesis by (simp add: ex_state_def ex_current)
qed

lemma ex_state_menu: "menu_items (ex_state ls t) = [(''Bur_1'', ex_big_mac), (''Fri_2'', ex_fries)]"
  by (simp add: ex_state_def ex_menu)

lemma ex_state_current: "current_order (ex_state ls t) =
    Some \<lparr>order_id = ''order_1'', items = ls, created_at = 0, status = ''in_progress'',
          order_total = t\<rparr>"
  by (simp add: ex_state_def)

lemma ex_state_update:
  "(ex_state ls t)\<lparr>current_order := Some \<lparr>order_id = ''order_1'', items = ls', created_at = 0,
      status = ''in_progress'', order_total = t'\<rparr>\<rparr> = ex_state ls' t'"
  by (simp add: ex_state_def)

lemma ex_state_eq: "ex_state ls t = ex_state ls' t' \<longleftrightarrow> ls = ls' \<and> t = t'"
proof
  assume "ex_state ls t = ex_state ls' t'"
  then have "current_order (ex_state ls t) = current_order (ex_state ls' t')" by simp
  then show "ls = ls' \<and> t = t'" by (simp add: ex_state_current)
qed simp

lemmas ex_eval =
  add_item_to_order_def add_item_checked_def remove_item_from_order_def list_pop_def
  calculate_total_def ex_state_menu ex_state_current ex_state_update size_in_def
  ex_line_def ex_big_mac_def ex_fries_def float_eval

lemma ex_after_1_step:
  "add_item_to_order (ex_state [] (Finite 0)) ''Bur_1'' 2 None None = (Inr True, ex_after_1)"
  by (simp add: ex_eval ex_after_1_def)

lemma ex_after_2_step:
  "add_item_to_order ex_after_1 ''Fri_2'' 1 (Some LARGE) None = (Inr True, ex_after_2)"
  by (simp add: ex_eval ex_after_1_def ex_after_2_def)

lemma ex_after_3_step: "remove_item_from_order ex_after_2 0 = (Inr True, ex_after_3)"
  by (simp add: ex_eval ex_after_2_def ex_after_3_def)

lemma ex_add_1_step:
  "add_item_to_order (ex_state [] (Finite 0)) ''Bur_1'' 1 None None = (Inr True, ex_add_1)"
  by (simp add: ex_eval ex_add_1_def)

lemma ex_add_2_step:
  "add_item_to_order ex_add_1 ''Fri_2'' 2 (Some LARGE) None = (Inr True, ex_add_2)"
  by (simp add: ex_eval ex_add_1_def ex_add_2_def)

lemma ex_add_3_step:
  "add_item_to_order ex_add_2 ''Bur_1'' 3 None None = (Inr True, ex_add_3)"
  by (simp add: ex_eval ex_add_2_def ex_add_3_def)

section \<open>The total of an order\<close>

lemma add_item_to_order_total:
  "add_item_to_order s iid qty sz instr = (Inr True, s') \<Longrightarrow> total_matches s'"
  by (auto simp: add_item_to_order_def add_item_checked_def total_matches_def Let_def
        calculate_total_def
      split: option.splits sum.splits if_splits add_outcome.splits prod.splits)

lemma remove_item_from_order_total:
  "remove_item_from_order s i = (Inr True, s') \<Longrightarrow> total_matches s'"
  by (auto simp: remove_item_from_order_def total_matches_def Let_def calculate_total_def
      split: option.splits sum.splits if_splits)

lemma apply_mutation_total: "apply_mutation s m = Some s' \<Longrightarrow> total_matches s'"
  by (cases m)
     (auto split: prod.splits sum.splits bool.splits
           dest: add_item_to_order_total remove_item_from_order_total)

text \<open>
  Claim C1 says that after each successful mutation the total equals the sum of price
  times quantity over the lines. The total is a float, accumulated line by line with a
  rounding at every product and every sum. After the adds of one Big Mac at 5.99, two
  fries at 3.49 and three Big Macs, all of which return \<open>True\<close>, the stored total is
  the double 30.939999999999998. The sum is 30.94 on the decimal prices, and on the
  doubles that the prices are it is the double nearest to 30.94; the stored total is
  neither. Nor do the lines alone fix the float: three lines of 1, 1 and 3 Big Macs
  give 29.95 in this order and 29.950000000000003 in the reverse order.
\<close>

theorem total_differs_from_sum:
  "states_after ex_session ex_adds = Some [ex_add_1, ex_add_2, ex_add_3]
   \<and> map_option order_total (current_order ex_add_3)
       = Some (Finite (544302236214231 / 17592186044416))
   \<and> map_option lines_sum (current_order ex_add_3) = Some (3094 / 100)
   \<and> map_option lines_sum_of_doubles (current_order ex_add_3)
       = Some (8708835779427697 / 281474976710656)
   \<and> round_to_double (3094 / 100) = Finite (8708835779427697 / 281474976710656)
   \<and> (544302236214231 / 17592186044416 :: real) \<noteq> 3094 / 100
   \<and> (544302236214231 / 17592186044416 :: real) \<noteq> 8708835779427697 / 281474976710656
   \<and> calculate_total (ex_big_macs [1, 1, 3]) = Inr (Finite (8430175552484147 / 281474976710656))
   \<and> calculate_total (ex_big_macs [3, 1, 1]) = Inr (Finite (2107543888121037 / 70368744177664))"
proof (intro conjI)
  show "states_after ex_session ex_adds = Some [ex_add_1, ex_add_2, ex_add_3]"
    by (simp add: ex_adds_def ex_session_state ex_add_1_step ex_add_2_step ex_add_3_step)
  show "map_option order_total (current_order ex_add_3)
       = Some (Finite (544302236214231 / 17592186044416))"
    by (simp add: ex_add_3_def ex_state_current)
  show "map_option lines_sum (current_order ex_add_3) = Some (3094 / 100)"
    by (simp add: ex_add_3_def ex_state_current lines_sum_def ex_line_def ex_big_mac_def ex_fries_def)
  show "map_option lines_sum_of_doubles (current_order ex_add_3)
       = Some (8708835779427697 / 281474976710656)"
    by (simp add: ex_add_3_def ex_state_current lines_sum_of_doubles_def float_value_def
          ex_line_def ex_big_mac_def ex_fries_def float_eval)
  show "round_to_double (3094 / 100) = Finite (8708835779427697 / 281474976710656)"
    by (simp add: float_eval)
  show "(544302236214231 / 17592186044416 :: real) \<noteq> 3094 / 100" by simp
  show "(544302236214231 / 17592186044416 :: real) \<noteq> 8708835779427697 / 281474976710656"
    by simp
  show "calculate_total (ex_big_macs [1, 1, 3]) = Inr (Finite (8430175552484147 / 281474976710656))"
    by (simp add: calculate_total_def ex_big_macs_def ex_line_def ex_big_mac_def float_eval)
  show "calculate_total (ex_big_macs [3, 1, 1]) = Inr (Finite (2107543888121037 / 70368744177664))"
    by (simp add: calculate_total_def ex_big_macs_def ex_line_def ex_big_mac_def float_eval)
qed

text \<open>
  Claim C1 as amended. Start from any session state and run any sequence of calls of
  \<open>add_item_to_order\<close> and \<open>remove_item_from_order\<close> that all return \<open>True\<close>. Then there is
  one state after each call, and in each of them the active order's total is the float
  that \<open>calculate_total\<close> returns for the lines the order then has: the products of price
  and quantity, added up in floating point from 0.0 in the order of the lines.
\<close>

theorem total_after_each_mutation:
  "states_after s ms = Some ss \<Longrightarrow>
     length ss = length ms \<and> (\<forall>s' \<in> set ss. total_matches s')"
proof (induction ms arbitrary: s ss)
  case Nil
  then show ?case by simp
next
  case (Cons m ms)
  from Cons.prems obtain s1 ss1 where
    step: "apply_mutation s m = Some s1" and rest: "states_after s1 ms = Some ss1"
    and ss: "ss = s1 # ss1"
    by (auto split: option.splits)
  from Cons.IH [OF rest] apply_mutation_total [OF step] ss show ?case by simp
qed

theorem total_after_each_mutation_witness:
  "states_after ex_session ex_mutations = Some [ex_after_1, ex_after_2, ex_after_3]
   \<and> total_matches ex_after_1 \<and> total_matches ex_after_2 \<and> total_matches ex_after_3
   \<and> map_option order_total (current_order ex_after_2)
       = Some (Finite (8708835779427697 / 562949953421312))
   \<and> round_to_double (1547 / 100) = Finite (8708835779427697 / 562949953421312)"
proof -
  have run: "states_after ex_session ex_mutations = Some [ex_after_1, ex_after_2, ex_after_3]"
    by (simp add: ex_mutations_def ex_session_state ex_after_1_step ex_after_2_step
          ex_after_3_step)
  have two: "map_option order_total (current_order ex_after_2)
               = Some (Finite (8708835779427697 / 562949953421312))"
    by (simp add: ex_after_2_def ex_state_current)
  have near: "round_to_double (1547 / 100) = Finite (8708835779427697 / 562949953421312)"
    by (simp add: float_eval)
  from total_after_each_mutation [OF run] run two near show ?thesis by simp
qed

section \<open>Checkout\<close>

text \<open>
  Claim C2. \<open>checkout\<close> on a session without an active order, or whose active order has
  no lines, returns \<open>False\<close> and leaves the session as it was (so the order, if there is
  one, keeps its status). On an active order with at least one line it returns \<open>True\<close>;
  the order, with its status set to completed and nothing else changed, is appended to
  the history, and the slot of the active order is emptied.
\<close>

theorem checkout_behaviour:
  "(current_order s = None \<longrightarrow> checkout s = (False, s)) \<and>
   (\<forall>ord. current_order s = Some ord \<and> items ord = [] \<longrightarrow> checkout s = (False, s)) \<and>
   (\<forall>ord. current_order s = Some ord \<and> items ord \<noteq> [] \<longrightarrow>
      checkout s =
        (True, s\<lparr>orders_history := orders_history s @ [ord\<lparr>status := ''completed''\<rparr>],
                  current_order := None\<rparr>))"
  by (simp add: checkout_def)

theorem checkout_behaviour_witness:
  "checkout (ex_session_with [] None) = (False, ex_session_with [] None)
   \<and> checkout (ex_session_with [] (Some (ex_order\<lparr>items := []\<rparr>)))
       = (False, ex_session_with [] (Some (ex_order\<lparr>items := []\<rparr>)))
   \<and> status (ex_order\<lparr>items := []\<rparr>) = ''in_progress''
   \<and> checkout (ex_session_with [] (Some ex_order))
       = (True, (ex_session_with [] None)\<lparr>orders_history := [ex_order\<lparr>status := ''completed''\<rparr>]\<rparr>)"
  using checkout_behaviour [of "ex_session_with [] None"]
    checkout_behaviour [of "ex_session_with [] (Some (ex_order\<lparr>items := []\<rparr>))"]
    checkout_behaviour [of "ex_session_with [] (Some ex_order)"]
  by (simp add: ex_session_with_def ex_order_def)

section \<open>Removing a line by index\<close>

text \<open>What \<open>remove_item_from_order\<close> does on an active order, for every index.\<close>

lemma remove_item_from_order_too_large:
  "current_order s = Some ord \<Longrightarrow> int (length (items ord)) \<le> i \<Longrightarrow>
     remove_item_from_order s i = (Inr False, s)"
  by (simp add: remove_item_from_order_def)

lemma remove_item_from_order_in_range:
  "current_order s = Some ord \<Longrightarrow> 0 \<le> i \<Longrightarrow> i < int (length (items ord)) \<Longrightarrow>
     remove_item_from_order s i =
       (case calculate_total (ord\<lparr>items := take (nat i) (items ord) @ drop (Suc (nat i)) (items ord)\<rparr>) of
          Inl e \<Rightarrow>
            (Inl e, s\<lparr>current_order := Some
               (ord\<lparr>items := take (nat i) (items ord) @ drop (Suc (nat i)) (items ord)\<rparr>)\<rparr>)
        | Inr t \<Rightarrow>
            (Inr True, s\<lparr>current_order := Some
               (ord\<lparr>items := take (nat i) (items ord) @ drop (Suc (nat i)) (items ord),
                    order_total := t\<rparr>)\<rparr>))"
  by (simp add: remove_item_from_order_def list_pop_def Let_def split: sum.splits)

lemma remove_item_from_order_negative:
  "current_order s = Some ord \<Longrightarrow> i < 0 \<Longrightarrow> - int (length (items ord)) \<le> i \<Longrightarrow>
     fst (remove_item_from_order s i) \<noteq> Inr False
     \<and> map_option (length \<circ> items) (current_order (snd (remove_item_from_order s i)))
         = Some (length (items ord) - 1)"
  by (auto simp: remove_item_from_order_def list_pop_def Let_def split: sum.splits)

lemma remove_item_from_order_raises:
  "current_order s = Some ord \<Longrightarrow> i < - int (length (items ord)) \<Longrightarrow>
     remove_item_from_order s i = (Inl IndexError, s)"
  by (simp add: remove_item_from_order_def list_pop_def Let_def)

text \<open>
  Claim C3 says that an index below zero is refused and changes nothing. The guard of
  line 174 only tests \<open>item_index >= len(items)\<close>, so a negative index reaches
  \<open>items.pop\<close>: on the order holding the single line "2 Big Mac", index \<open>-1\<close> removes
  that line and returns \<open>True\<close>, leaving the empty order, and index \<open>-2\<close> raises
  \<open>IndexError\<close>.
\<close>

theorem remove_item_from_order_negative_index:
  "map_option (length \<circ> items) (current_order ex_after_1) = Some 1
   \<and> remove_item_from_order ex_after_1 (- 1) = (Inr True, ex_session)
   \<and> map_option items (current_order ex_session) = Some []
   \<and> ex_after_1 \<noteq> ex_session
   \<and> remove_item_from_order ex_after_1 (- 2) = (Inl IndexError, ex_after_1)"
  by (simp add: ex_session_state ex_after_1_def ex_state_eq remove_item_from_order_def
        list_pop_def calculate_total_def ex_state_current ex_state_update)

section \<open>Sizes when a line is added\<close>

text \<open>
  Claim C4. Take an item of the catalog that declares sizes (a non-empty list, as every
  sized item of a scraped catalog has) and a requested size that is not one of them; no
  size at all is such a request. Then \<open>add_item_to_order\<close> returns \<open>False\<close> and the
  session, and with it the lines and the total of the active order, is unchanged.
\<close>

theorem add_item_to_order_rejects_size:
  assumes "map_of (menu_items s) iid = Some mi"
    and "available_sizes mi = Some zs" and "zs \<noteq> []"
    and "\<not> size_in sz zs"
  shows "add_item_to_order s iid qty sz instr = (Inr False, s) \<and> \<not> size_in None zs"
  using assms
  by (simp add: add_item_to_order_def add_item_checked_def size_in_def split: option.splits)

theorem add_item_to_order_rejects_size_witness:
  "add_item_to_order ex_after_1 ''Fri_2'' 1 None None = (Inr False, ex_after_1)
   \<and> add_item_to_order (ex_session_with [(''X_1'', ex_small_only)] (Some ex_order))
        ''X_1'' 1 (Some LARGE) None
       = (Inr False, ex_session_with [(''X_1'', ex_small_only)] (Some ex_order))"
proof -
  have a1: "map_of (menu_items ex_after_1) ''Fri_2'' = Some ex_fries"
    by (simp add: ex_after_1_def ex_state_menu)
  have a2: "available_sizes ex_fries = Some [SMALL, MEDIUM, LARGE]" by (simp add: ex_fries_def)
  have a3: "[SMALL, MEDIUM, LARGE] \<noteq> []" by simp
  have a4: "\<not> size_in None [SMALL, MEDIUM, LARGE]" by (simp add: size_in_def)
  have b1: "map_of (menu_items (ex_session_with [(''X_1'', ex_small_only)] (Some ex_order))) ''X_1''
              = Some ex_small_only"
    by (simp add: menu_items_def ex_session_with_def deref_def)
  have b2: "available_sizes ex_small_only = Some [SMALL]" by (simp add: ex_small_only_def)
  have b3: "[SMALL] \<noteq> []" by simp
  have b4: "\<not> size_in (Some LARGE) [SMALL]" by (simp add: size_in_def)
  from add_item_to_order_rejects_size [OF a1 a2 a3 a4, of 1 None]
    add_item_to_order_rejects_size [OF b1 b2 b3 b4, of 1 None]
  show ?thesis by simp
qed

section \<open>What a build puts into the catalog\<close>

lemma dict_set_entries: "e \<in> set (dict_set kvs k v) \<Longrightarrow> e \<in> set kvs \<or> e = (k, v)"
  by (induction kvs k v rule: dict_set.induct) (auto split: if_splits)

lemma dict_set_keys:
  "map fst (dict_set kvs k v) = map fst kvs @ (if k \<in> fst ` set kvs then [] else [k])"
  by (induction kvs k v rule: dict_set.induct) auto

lemma scrape_item_entries:
  assumes "e \<in> set (menu_data (fst (scrape_item rng c st raw)))"
  shows "e \<in> set (menu_data (fst st)) \<or> built_entry rng e"
  using assms unfolding built_entry_def
  by (auto simp: scrape_item_def Let_def split: if_splits dest!: dict_set_entries)

lemma scrape_items_entries:
  "e \<in> set (menu_data (fst (foldl (scrape_item rng c) st raws))) \<Longrightarrow>
     e \<in> set (menu_data (fst st)) \<or> built_entry rng e"
proof (induction raws arbitrary: st)
  case Nil
  then show ?case by simp
next
  case (Cons raw raws)
  from Cons.IH [of "scrape_item rng c st raw"] Cons.prems
  have "e \<in> set (menu_data (fst (scrape_item rng c st raw))) \<or> built_entry rng e" by simp
  then show ?case using scrape_item_entries by blast
qed

lemma scrape_categories_entries:
  "e \<in> set (menu_data (snd (scrape_categories rng pg cs st))) \<Longrightarrow>
     e \<in> set (menu_data (fst st)) \<or> built_entry rng e"
proof (induction cs arbitrary: st)
  case Nil
  then show ?case by simp
next
  case (Cons c cs)
  show ?case
  proof (cases "map_of pg c")
    case None
    with Cons show ?thesis by simp
  next
    case (Some h)
    show ?thesis
    proof (cases h)
      case No_list
      with Some Cons.prems show ?thesis by simp
    next
      case (Listed raws)
      with Some Cons.prems Cons.IH [of "foldl (scrape_item rng c) st raws"]
      have "e \<in> set (menu_data (fst (foldl (scrape_item rng c) st raws))) \<or> built_entry rng e"
        by simp
      then show ?thesis using scrape_items_entries by blast
    qed
  qed
qed

lemma scrape_menu_entries:
  assumes "e \<in> set (menu_data (snd (scrape_menu fetched rng sc)))"
  shows "e \<in> set (menu_data sc) \<or> built_entry rng e"
proof (cases fetched)
  case None
  with assms show ?thesis by (simp add: scrape_menu_def)
next
  case (Some pg)
  with assms
  have "e \<in> set (menu_data (snd (scrape_categories rng pg (map fst (categories sc)) (sc, 0))))"
    by (simp add: scrape_menu_def split: prod.splits)
  from scrape_categories_entries [OF this] show ?thesis by simp
qed

lemma deref_subset: "set (deref sc r) \<subseteq> set (menu_data sc)"
  by (cases r) (simp_all add: deref_def)

text \<open>Every entry that a build makes has a non-empty id, and no sizes or all three.\<close>

lemma built_entry_id: "built_entry rng e \<Longrightarrow> fst e \<noteq> []"
  by (auto simp: built_entry_def)

lemma built_entry_sizes:
  "built_entry rng e \<Longrightarrow>
     available_sizes (snd e) = None \<or> available_sizes (snd e) = Some [SMALL, MEDIUM, LARGE]"
  by (auto simp: built_entry_def get_available_sizes_def)

text \<open>The ids a scraper holds stay where they are, whatever a later build adds.\<close>

lemma scrape_item_keeps_ids:
  "prefix (map fst (menu_data (fst st))) (map fst (menu_data (fst (scrape_item rng c st raw))))"
  by (simp add: scrape_item_def Let_def dict_set_keys)

lemma scrape_items_keep_ids:
  "prefix (map fst (menu_data (fst st)))
     (map fst (menu_data (fst (foldl (scrape_item rng c) st raws))))"
proof (induction raws arbitrary: st)
  case Nil
  then show ?case by simp
next
  case (Cons raw raws)
  from scrape_item_keeps_ids [of st rng c raw] Cons [of "scrape_item rng c st raw"]
  show ?case by (auto intro: prefix_order.trans)
qed

lemma scrape_categories_keep_ids:
  "prefix (map fst (menu_data (fst st)))
     (map fst (menu_data (snd (scrape_categories rng pg cs st))))"
proof (induction cs arbitrary: st)
  case Nil
  then show ?case by simp
next
  case (Cons c cs)
  show ?case
  proof (cases "map_of pg c")
    case None
    with Cons show ?thesis by simp
  next
    case (Some h)
    show ?thesis
    proof (cases h)
      case No_list
      with Some show ?thesis by simp
    next
      case (Listed raws)
      from scrape_items_keep_ids [of st rng c raws]
        Cons [of "foldl (scrape_item rng c) st raws"] Some Listed
      show ?thesis by (auto intro: prefix_order.trans)
    qed
  qed
qed

lemma scrape_menu_keeps_ids:
  "prefix (map fst (menu_data sc)) (map fst (menu_data (snd (scrape_menu fetched rng sc))))"
proof (cases fetched)
  case None
  then show ?thesis by (simp add: scrape_menu_def)
next
  case (Some pg)
  from scrape_categories_keep_ids [of "(sc, 0)" rng pg "map fst (categories sc)"] Some
  show ?thesis by (auto simp: scrape_menu_def split: prod.splits)
qed

section \<open>Prices of a build\<close>

lemma get_base_price_cases:
  "get_base_price c \<in> {5.99, 4.99, 5.49, 2.99, 4.49, 3.99, 1.99}"
  by (simp add: get_base_price_def prices_def)

lemma get_base_price_hundredths: "\<exists>n::int. get_base_price c * 100 = of_int n"
proof -
  consider "get_base_price c = 5.99" | "get_base_price c = 4.99" | "get_base_price c = 5.49"
    | "get_base_price c = 2.99" | "get_base_price c = 4.49" | "get_base_price c = 3.99"
    | "get_base_price c = 1.99"
    using get_base_price_cases [of c] by blast
  then show ?thesis
  proof cases
    case 1 then have "get_base_price c * 100 = of_int 599" by simp then show ?thesis ..
  next
    case 2 then have "get_base_price c * 100 = of_int 499" by simp then show ?thesis ..
  next
    case 3 then have "get_base_price c * 100 = of_int 549" by simp then show ?thesis ..
  next
    case 4 then have "get_base_price c * 100 = of_int 299" by simp then show ?thesis ..
  next
    case 5 then have "get_base_price c * 100 = of_int 449" by simp then show ?thesis ..
  next
    case 6 then have "get_base_price c * 100 = of_int 399" by simp then show ?thesis ..
  next
    case 7 then have "get_base_price c * 100 = of_int 199" by simp then show ?thesis ..
  qed
qed

lemma get_base_price_default: "c \<notin> set category_names \<Longrightarrow> get_base_price c = 499 / 100"
  by (simp add: get_base_price_def prices_def category_names_def)

lemma round_half_even_bounds:
  "\<lfloor>y\<rfloor> \<le> round_half_even y \<and> round_half_even y \<le> \<lfloor>y\<rfloor> + 1"
  by (simp add: round_half_even_def Let_def)

lemma round2_range:
  assumes n: "b * 100 = of_int n" and u: "0 \<le> u" "u < 2"
  shows "b \<le> round2 (b + u) \<and> round2 (b + u) \<le> b + 2"
proof -
  let ?y = "(b + u) * 100"
  have y: "?y = of_int n + u * 100" using n by (simp add: algebra_simps)
  have lo: "n \<le> \<lfloor>?y\<rfloor>" using u y by (simp add: le_floor_iff)
  have "?y < of_int (n + 200)" using u y by simp
  then have hi: "\<lfloor>?y\<rfloor> < n + 200" by (simp only: floor_less_iff)
  from lo hi round_half_even_bounds [of ?y]
  have "n \<le> round_half_even ?y" and "round_half_even ?y \<le> n + 200" by linarith+
  then have "(of_int n :: real) \<le> of_int (round_half_even ?y)"
    and "(of_int (round_half_even ?y) :: real) \<le> of_int (n + 200)"
    by (simp_all only: of_int_le_iff)
  then have "b * 100 \<le> of_int (round_half_even ?y)"
    and "(of_int (round_half_even ?y) :: real) \<le> b * 100 + 200"
    using n by simp_all
  then show ?thesis by (simp add: round2_def field_simps)
qed

lemma built_entry_price:
  assumes "\<forall>k. 0 \<le> rng k \<and> rng k < 2" and "built_entry rng e"
  shows "price_in_range (snd e)"
proof -
  from assms(2) obtain c k where c: "category (snd e) = c"
    and p: "price (snd e) = round2 (get_base_price c + rng k)"
    by (auto simp: built_entry_def)
  obtain n :: int where "get_base_price c * 100 = of_int n"
    using get_base_price_hundredths by blast
  from round2_range [OF this, of "rng k"] assms(1) c p show ?thesis
    by (simp add: price_in_range_def)
qed

lemma built_entry_price_formula:
  "built_entry rng e \<Longrightarrow>
     \<exists>k. price (snd e) = round2 (get_base_price (category (snd e)) + rng k)"
  by (auto simp: built_entry_def)

text \<open>
  Claim C8 puts every price in the half-open interval from the base price \<open>B\<close> of the
  item's category to \<open>B + 2\<close>. Line 79 rounds the sum of base price and random number to
  two decimals, and the rounding can reach \<open>B + 2\<close>: with the random number 1.996 a
  burger costs 5.49 + 2.
\<close>

theorem price_reaches_base_plus_two:
  "0 \<le> constant_source (499 / 250) 0 \<and> constant_source (499 / 250) 0 < 2
   \<and> map (category \<circ> snd) (menu_items ex_top) = [''Burgers'']
   \<and> map (price \<circ> snd) (menu_items ex_top) = [get_base_price ''Burgers'' + 2]
   \<and> \<not> (get_base_price ''Burgers'' + 2 < get_base_price ''Burgers'' + 2)"
  by code_simp

text \<open>
  Claim C8 as amended. Let every random number of a build lie in \<open>[0, 2)\<close>. Then every
  entry that the build adds under a heading \<open>C\<close> has as its price the base price of
  \<open>C\<close> plus a random number, rounded to two decimals, and if the prices the scraper held
  before lie between the base price of their category and that base price plus two, both
  ends included, so does every price of the catalog that the build returns. A category
  outside the ten headings has the base price 4.99.
\<close>

theorem scraped_price_range:
  assumes "\<forall>k. 0 \<le> rng k \<and> rng k < 2"
    and "\<forall>e \<in> set (menu_data sc). price_in_range (snd e)"
  shows "(\<forall>e \<in> set (deref (snd (scrape_menu fetched rng sc)) (fst (scrape_menu fetched rng sc))).
            price_in_range (snd e) \<and>
            (e \<notin> set (menu_data sc) \<longrightarrow>
               (\<exists>k. price (snd e) = round2 (get_base_price (category (snd e)) + rng k))))
         \<and> (c \<notin> set category_names \<longrightarrow> get_base_price c = 499 / 100)"
proof (intro conjI ballI impI)
  fix e
  assume "e \<in> set (deref (snd (scrape_menu fetched rng sc)) (fst (scrape_menu fetched rng sc)))"
  then have "e \<in> set (menu_data (snd (scrape_menu fetched rng sc)))"
    using deref_subset by blast
  then have e: "e \<in> set (menu_data sc) \<or> built_entry rng e" by (rule scrape_menu_entries)
  then show "price_in_range (snd e)"
    using assms built_entry_price by blast
  assume "e \<notin> set (menu_data sc)"
  with e have "built_entry rng e" by simp
  then show "\<exists>k. price (snd e) = round2 (get_base_price (category (snd e)) + rng k)"
    by (rule built_entry_price_formula)
next
  assume "c \<notin> set category_names"
  then show "get_base_price c = 499 / 100" by (rule get_base_price_default)
qed

theorem scraped_price_range_witness:
  "price_in_range ex_big_mac \<and> price_in_range ex_fries
   \<and> price ex_big_mac = round2 (get_base_price ''Burgers'' + 1 / 2)
   \<and> get_base_price ''Desserts'' = 499 / 100"
proof -
  let ?b = "scrape_menu (Some ex_page) (constant_source (1 / 2)) menu_scraper_init"
  have r: "\<forall>k. 0 \<le> constant_source (1 / 2) k \<and> constant_source (1 / 2) k < 2"
    by (simp add: constant_source_def)
  have old: "\<forall>e \<in> set (menu_data menu_scraper_init). price_in_range (snd e)"
    by (simp add: menu_scraper_init_def)
  have m1: "(''Bur_1'', ex_big_mac) \<in> set (deref (snd ?b) (fst ?b))" by code_simp
  have m2: "(''Fri_2'', ex_fries) \<in> set (deref (snd ?b) (fst ?b))" by code_simp
  have d: "''Desserts'' \<notin> set category_names" by code_simp
  have p: "price ex_big_mac = round2 (get_base_price ''Burgers'' + 1 / 2)" by code_simp
  from scraped_price_range [OF r old, of "Some ex_page" "''Desserts''"] m1 m2 d p
  show ?thesis by fastforce
qed

section \<open>Refreshing the menu\<close>

text \<open>
  Claim C9 says that a build returns a catalog made of that build's entries only and
  leaves every catalog built before as it was. \<open>scrape_menu\<close> adds to the one
  \<open>menu_data\<close> dict of the scraper and returns that dict. After the first build the
  catalog of the session holds \<open>Bur_1\<close> and \<open>Fri_2\<close>; \<open>refresh_menu\<close> on the same page
  returns the same dict, and that dict, which is also the catalog handed out before, now
  holds \<open>Bur_1\<close>, \<open>Fri_2\<close>, \<open>Bur_3\<close> and \<open>Fri_4\<close>.
\<close>

theorem refresh_menu_adds_to_old_catalog:
  "menu ex_no_order = Scraper_menu_data
   \<and> map fst (deref (menu_scraper ex_no_order) (menu ex_no_order)) = [''Bur_1'', ''Fri_2'']
   \<and> menu ex_refreshed = menu ex_no_order
   \<and> map fst (deref (menu_scraper ex_refreshed) (menu ex_no_order))
       = [''Bur_1'', ''Fri_2'', ''Bur_3'', ''Fri_4'']
   \<and> map (name \<circ> snd) (menu_items ex_refreshed)
       = [''Big Mac'', ''World Famous Fries'', ''Big Mac'', ''World Famous Fries'']"
  by code_simp


section \<open>Finding the item that a request names\<close>

lemma score_card: "score a b = card (set (split a) \<inter> set (split b))"
proof -
  have "set (filter (\<lambda>t. t \<in> set (split b)) (split a)) = set (split a) \<inter> set (split b)"
    by auto
  then show ?thesis
    by (simp add: score_def length_remdups_card_conv)
qed

lemma find_item_loop_exact:
  assumes "\<forall>e \<in> set pre. entry_name e \<noteq> q" and "entry_name (i, mi) = q"
  shows "fst (find_item_loop q (pre @ (i, mi) # post) bm bs) = Some i"
  using assms
  by (induction pre arbitrary: bm bs) (auto simp: entry_name_def Let_def)

lemma find_item_loop_none:
  assumes "\<forall>e \<in> set xs. entry_name e \<noteq> q \<and>
             (partial_match q (entry_name e) \<longrightarrow> score q (entry_name e) \<le> bs)"
  shows "find_item_loop q xs bm bs = (None, bm)"
  using assms
  by (induction xs arbitrary: bm) (auto simp: entry_name_def Let_def)

lemma find_item_loop_better:
  assumes "\<forall>e \<in> set pre. entry_name e \<noteq> q \<and>
             (partial_match q (entry_name e) \<longrightarrow>
                score q (entry_name e) < score q (entry_name (i, mi)))"
    and "bs < score q (entry_name (i, mi))"
    and "entry_name (i, mi) \<noteq> q" and "partial_match q (entry_name (i, mi))"
  shows "find_item_loop q (pre @ (i, mi) # post) bm bs =
           find_item_loop q post (Some i) (score q (entry_name (i, mi)))"
  using assms
proof (induction pre arbitrary: bm bs)
  case Nil
  then show ?case by (simp add: entry_name_def)
next
  case (Cons e pre)
  obtain j mj where e: "e = (j, mj)" by (cases e)
  show ?case
  proof (cases "partial_match q (entry_name e) \<and> bs < score q (entry_name e)")
    case True
    have "find_item_loop q ((e # pre) @ (i, mi) # post) bm bs =
            find_item_loop q (pre @ (i, mi) # post) (Some j) (score q (entry_name e))"
      using True Cons.prems(1) e by (auto simp: entry_name_def Let_def)
    also have "\<dots> = find_item_loop q post (Some i) (score q (entry_name (i, mi)))"
      using Cons.prems True by (intro Cons.IH) simp_all
    finally show ?thesis .
  next
    case False
    have "find_item_loop q ((e # pre) @ (i, mi) # post) bm bs =
            find_item_loop q (pre @ (i, mi) # post) bm bs"
      using False Cons.prems(1) e by (auto simp: entry_name_def Let_def)
    also have "\<dots> = find_item_loop q post (Some i) (score q (entry_name (i, mi)))"
      using Cons.prems by (intro Cons.IH) simp_all
    finally show ?thesis .
  qed
qed

lemma find_item_exact:
  assumes "\<forall>e \<in> set pre. entry_name e \<noteq> clean_input_name item_name"
    and "entry_name (i, mi) = clean_input_name item_name" and "i \<noteq> []"
  shows "find_item (pre @ (i, mi) # post) item_name = Some i"
proof -
  obtain bm where
    "find_item_loop (clean_input_name item_name) (pre @ (i, mi) # post) None 0 = (Some i, bm)"
    using find_item_loop_exact [OF assms(1,2), of post None 0]
    by (cases "find_item_loop (clean_input_name item_name) (pre @ (i, mi) # post) None 0") auto
  with assms(3) show ?thesis by (simp add: find_item_def truthy_def)
qed

lemma find_item_partial:
  assumes "\<forall>e \<in> set pre. entry_name e \<noteq> q \<and>
             (partial_match q (entry_name e) \<longrightarrow>
                score q (entry_name e) < score q (entry_name (i, mi)))"
    and "\<forall>e \<in> set post. entry_name e \<noteq> q \<and>
             (partial_match q (entry_name e) \<longrightarrow>
                score q (entry_name e) \<le> score q (entry_name (i, mi)))"
    and "0 < score q (entry_name (i, mi))"
    and "entry_name (i, mi) \<noteq> q" and "partial_match q (entry_name (i, mi))"
    and "i \<noteq> []" and "q = clean_input_name item_name"
  shows "find_item (pre @ (i, mi) # post) item_name = Some i"
proof -
  have "find_item_loop q (pre @ (i, mi) # post) None 0 =
          find_item_loop q post (Some i) (score q (entry_name (i, mi)))"
    using assms(1,3,4,5) by (rule find_item_loop_better)
  also have "\<dots> = (None, Some i)"
    using assms(2) by (rule find_item_loop_none)
  finally show ?thesis using assms(6,7) by (simp add: find_item_def truthy_def)
qed

lemma find_item_no_shared_word:
  assumes "\<forall>e \<in> set mn. entry_name e \<noteq> q \<and>
             (partial_match q (entry_name e) \<longrightarrow> score q (entry_name e) = 0)"
    and "q = clean_input_name item_name"
  shows "find_item mn item_name = None"
proof -
  have "find_item_loop q mn None 0 = (None, None)"
    using assms(1) by (intro find_item_loop_none) simp
  then show ?thesis using assms(2) by (simp add: find_item_def truthy_def)
qed

lemma find_item_loop_ids:
  "find_item_loop q mn bm bs = (a, b) \<Longrightarrow>
     (a = None \<or> a \<in> Some ` fst ` set mn) \<and> (b = bm \<or> b \<in> Some ` fst ` set mn)"
proof (induction mn arbitrary: bm bs)
  case Nil
  then show ?case by simp
next
  case (Cons e mn)
  obtain j mj where e: "e = (j, mj)" by (cases e)
  from Cons.prems have step: "find_item_loop q ((j, mj) # mn) bm bs = (a, b)"
    unfolding e .
  consider "a = Some j" "b = bm"
    | "find_item_loop q mn (Some j) (score q (clean_menu_name (name mj))) = (a, b)"
    | "find_item_loop q mn bm bs = (a, b)"
  proof (cases "q = clean_menu_name (name mj)")
    case True
    with step that(1) show ?thesis by simp
  next
    case False
    show ?thesis
    proof (cases "partial_match q (clean_menu_name (name mj))
                   \<and> bs < score q (clean_menu_name (name mj))")
      case True
      with step \<open>q \<noteq> clean_menu_name (name mj)\<close> that(2) show ?thesis by (simp add: Let_def)
    next
      case False
      with step \<open>q \<noteq> clean_menu_name (name mj)\<close> that(3) show ?thesis by (auto simp: Let_def)
    qed
  qed
  then show ?case
  proof cases
    case 1
    with e show ?thesis by simp
  next
    case 2
    from Cons.IH [OF this] e show ?thesis by auto
  next
    case 3
    from Cons.IH [OF this] show ?thesis by auto
  qed
qed

lemma find_item_in_menu:
  assumes "find_item mn item_name = Some i"
  shows "i \<in> fst ` set mn"
proof -
  obtain a b where ab: "find_item_loop (clean_input_name item_name) mn None 0 = (a, b)"
    by (cases "find_item_loop (clean_input_name item_name) mn None 0")
  from find_item_loop_ids [OF ab] assms ab show ?thesis
    by (auto simp: find_item_def Let_def truthy_def split: if_splits)
qed

lemma big_mac_names:
  "clean_input_name ''I'd like a big mac meal'' = ''i'd like a big mac''"
  "clean_menu_name ''Big Mac'' = ''big mac''"
  "partial_match ''i'd like a big mac'' ''big mac''"
  "score ''i'd like a big mac'' ''big mac'' = 2"
  by code_simp+

text \<open>
  Claim C5 says that the request resolves to any entry whose cleaned-up name equals the
  cleaned-up request. The loop stops at the first such entry. A page that lists the Big
  Mac under Featured Favorites and under Burgers gives the catalog two entries with that
  name, \<open>Fea_1\<close> and \<open>Bur_2\<close>; the request "big mac" equals the name of \<open>Bur_2\<close> and
  resolves to \<open>Fea_1\<close>. Nor is the request "I'd like a big mac meal" a case of an exact
  match: cleaned up it still has its first three words.
\<close>

theorem exact_match_of_later_entry:
  "map fst ex_menu_twice = [''Fea_1'', ''Bur_2'']
   \<and> map (name \<circ> snd) ex_menu_twice = [''Big Mac'', ''Big Mac'']
   \<and> map entry_name ex_menu_twice = [clean_input_name ''big mac'', clean_input_name ''big mac'']
   \<and> find_item ex_menu_twice ''big mac'' = Some ''Fea_1''
   \<and> find_item ex_menu_twice ''big mac'' \<noteq> Some ''Bur_2''
   \<and> clean_input_name ''I'd like a big mac meal'' \<noteq> clean_menu_name ''Big Mac''"
  by code_simp

text \<open>
  Claim C5 as amended. When some entry's cleaned-up name equals the cleaned-up request,
  the request resolves to the first such entry in the order of the catalog (its id being
  a non-empty string, as every built id is), whatever the scores of the other entries.
  With the catalog of the one item \<open>B1\<close> named "Big Mac", the request "I'd like a big
  mac meal" resolves to \<open>B1\<close>; there the cleaned-up request is "i'd like a big mac", which
  is not the cleaned-up name "big mac", and the item is found as a partial match.
\<close>

theorem find_item_first_exact:
  "(mn = pre @ (i, mi) # post \<and> i \<noteq> []
      \<and> entry_name (i, mi) = clean_input_name item_name
      \<and> (\<forall>e \<in> set pre. entry_name e \<noteq> clean_input_name item_name)
      \<longrightarrow> find_item mn item_name = Some i)
   \<and> (name bm = ''Big Mac'' \<longrightarrow>
        find_item [(''B1'', bm)] ''I'd like a big mac meal'' = Some ''B1''
        \<and> clean_input_name ''I'd like a big mac meal'' = ''i'd like a big mac''
        \<and> entry_name (''B1'', bm) = ''big mac'')"
proof (intro conjI impI)
  assume "mn = pre @ (i, mi) # post \<and> i \<noteq> []
      \<and> entry_name (i, mi) = clean_input_name item_name
      \<and> (\<forall>e \<in> set pre. entry_name e \<noteq> clean_input_name item_name)"
  then show "find_item mn item_name = Some i"
    using find_item_exact [of pre item_name i mi post] by simp
next
  assume "name bm = ''Big Mac''"
  then show "find_item [(''B1'', bm)] ''I'd like a big mac meal'' = Some ''B1''"
    by (simp add: find_item_def big_mac_names truthy_def)
  show "clean_input_name ''I'd like a big mac meal'' = ''i'd like a big mac''"
    by (rule big_mac_names)
  from \<open>name bm = ''Big Mac''\<close> show "entry_name (''B1'', bm) = ''big mac''"
    by (simp add: entry_name_def big_mac_names)
qed

theorem find_item_first_exact_witness:
  "find_item ex_burger_menu ''  Big Mac '' = Some ''B1''
   \<and> map entry_name ex_burger_menu = [''french fries'', ''big mac'', ''big mac'']
   \<and> find_item [(''B1'', ex_item ''B1'' ''Big Mac'')] ''I'd like a big mac meal'' = Some ''B1''"
proof -
  have a: "ex_burger_menu = [(''F1'', ex_item ''F1'' ''French Fries'')]
             @ (''B1'', ex_item ''B1'' ''Big Mac'') # [(''B2'', ex_item ''B2'' ''Big Mac Meal'')]
           \<and> ''B1'' \<noteq> []
           \<and> entry_name (''B1'', ex_item ''B1'' ''Big Mac'') = clean_input_name ''  Big Mac ''
           \<and> (\<forall>e \<in> set [(''F1'', ex_item ''F1'' ''French Fries'')].
                 entry_name e \<noteq> clean_input_name ''  Big Mac '')"
    by code_simp
  have b: "name (ex_item ''B1'' ''Big Mac'') = ''Big Mac''" by (simp add: ex_item_def)
  have c: "map entry_name ex_burger_menu = [''french fries'', ''big mac'', ''big mac'']"
    by code_simp
  from find_item_first_exact [of ex_burger_menu "[(''F1'', ex_item ''F1'' ''French Fries'')]"
      "''B1''" "ex_item ''B1'' ''Big Mac''" "[(''B2'', ex_item ''B2'' ''Big Mac Meal'')]"
      "''  Big Mac ''" "ex_item ''B1'' ''Big Mac''"] a b c
  show ?thesis by blast
qed

text \<open>
  Claim C6 says that, without an exact match, the request resolves to the entry with
  the largest score among those whose name contains the request or is contained in it.
  Line 270 calls that test the partial match and line 277 says to use the best partial
  match, but \<open>best_score\<close> starts at zero and line 273 takes an entry only if its score
  exceeds the best so far. The request "nuggets" is contained in "chicken mcnuggets"
  and shares no whole word with it: the only candidate scores zero, none is taken, and
  the request is not found.
\<close>

theorem substring_match_without_shared_word:
  "map entry_name ex_nuggets_menu = [''chicken mcnuggets'']
   \<and> clean_input_name ''nuggets'' = ''nuggets''
   \<and> partial_match ''nuggets'' ''chicken mcnuggets''
   \<and> score ''nuggets'' ''chicken mcnuggets'' = 0
   \<and> find_item ex_nuggets_menu ''nuggets'' = None"
  by code_simp

text \<open>
  What the loop does when no entry's cleaned-up name equals the cleaned-up request.
  Call an entry a candidate when one of the two names contains the other; its score is
  the number of words the two names share. If some candidate has a positive score, the
  request resolves to the first candidate, in the order of the catalog, that has the
  largest score: every candidate before it scores less and every candidate after it
  scores at most as much. If every candidate scores zero, the request is not found.
\<close>

lemma find_item_best_partial:
  assumes "\<forall>e \<in> set mn. entry_name e \<noteq> clean_input_name item_name"
  shows "(mn = pre @ (i, mi) # post \<and> i \<noteq> []
            \<and> partial_match (clean_input_name item_name) (entry_name (i, mi))
            \<and> 0 < score (clean_input_name item_name) (entry_name (i, mi))
            \<and> (\<forall>e \<in> set pre. partial_match (clean_input_name item_name) (entry_name e) \<longrightarrow>
                  score (clean_input_name item_name) (entry_name e)
                    < score (clean_input_name item_name) (entry_name (i, mi)))
            \<and> (\<forall>e \<in> set post. partial_match (clean_input_name item_name) (entry_name e) \<longrightarrow>
                  score (clean_input_name item_name) (entry_name e)
                    \<le> score (clean_input_name item_name) (entry_name (i, mi)))
          \<longrightarrow> find_item mn item_name = Some i)
       \<and> ((\<forall>e \<in> set mn. partial_match (clean_input_name item_name) (entry_name e) \<longrightarrow>
              score (clean_input_name item_name) (entry_name e) = 0)
          \<longrightarrow> find_item mn item_name = None)
       \<and> score (clean_input_name item_name) (entry_name (i, mi))
           = card (set (split (clean_input_name item_name)) \<inter> set (split (entry_name (i, mi))))"
proof (intro conjI impI)
  let ?q = "clean_input_name item_name"
  assume h: "mn = pre @ (i, mi) # post \<and> i \<noteq> []
            \<and> partial_match ?q (entry_name (i, mi))
            \<and> 0 < score ?q (entry_name (i, mi))
            \<and> (\<forall>e \<in> set pre. partial_match ?q (entry_name e) \<longrightarrow>
                  score ?q (entry_name e) < score ?q (entry_name (i, mi)))
            \<and> (\<forall>e \<in> set post. partial_match ?q (entry_name e) \<longrightarrow>
                  score ?q (entry_name e) \<le> score ?q (entry_name (i, mi)))"
  from h assms have 1: "\<forall>e \<in> set pre. entry_name e \<noteq> ?q \<and>
      (partial_match ?q (entry_name e) \<longrightarrow> score ?q (entry_name e) < score ?q (entry_name (i, mi)))"
    by simp
  from h assms have 2: "\<forall>e \<in> set post. entry_name e \<noteq> ?q \<and>
      (partial_match ?q (entry_name e) \<longrightarrow> score ?q (entry_name e) \<le> score ?q (entry_name (i, mi)))"
    by simp
  from h assms have 3: "entry_name (i, mi) \<noteq> ?q" by simp
  from h have 4: "0 < score ?q (entry_name (i, mi))" and 5: "partial_match ?q (entry_name (i, mi))"
    and 6: "i \<noteq> []" by simp_all
  from find_item_partial [OF 1 2 4 3 5 6 refl] h show "find_item mn item_name = Some i"
    by simp
next
  let ?q = "clean_input_name item_name"
  assume "\<forall>e \<in> set mn. partial_match ?q (entry_name e) \<longrightarrow> score ?q (entry_name e) = 0"
  with assms have "\<forall>e \<in> set mn. entry_name e \<noteq> ?q \<and>
      (partial_match ?q (entry_name e) \<longrightarrow> score ?q (entry_name e) = 0)"
    by simp
  then show "find_item mn item_name = None"
    by (rule find_item_no_shared_word) simp
next
  show "score (clean_input_name item_name) (entry_name (i, mi))
          = card (set (split (clean_input_name item_name)) \<inter> set (split (entry_name (i, mi))))"
    by (rule score_card)
qed

lemma find_item_best_partial_example:
  "find_item ex_sandwiches ''chicken sandwich'' = Some ''S2''
   \<and> map (score (clean_input_name ''chicken sandwich'') \<circ> entry_name) ex_sandwiches = [0, 1, 1]
   \<and> find_item ex_nuggets_menu ''nuggets'' = None"
proof -
  let ?q = "clean_input_name ''chicken sandwich''"
  let ?mi = "ex_item ''S2'' ''McChicken Sandwich''"
  let ?pre = "[(''S1'', ex_item ''S1'' ''Chick'')]"
  let ?post = "[(''S3'', ex_item ''S3'' ''Spicy McChicken Sandwich'')]"
  have a0: "\<forall>e \<in> set ex_sandwiches. entry_name e \<noteq> ?q" by code_simp
  have a1: "ex_sandwiches = ?pre @ (''S2'', ?mi) # ?post \<and> ''S2'' \<noteq> []
            \<and> partial_match ?q (entry_name (''S2'', ?mi))
            \<and> 0 < score ?q (entry_name (''S2'', ?mi))
            \<and> (\<forall>e \<in> set ?pre. partial_match ?q (entry_name e) \<longrightarrow>
                  score ?q (entry_name e) < score ?q (entry_name (''S2'', ?mi)))
            \<and> (\<forall>e \<in> set ?post. partial_match ?q (entry_name e) \<longrightarrow>
                  score ?q (entry_name e) \<le> score ?q (entry_name (''S2'', ?mi)))"
    by code_simp
  have a2: "map (score ?q \<circ> entry_name) ex_sandwiches = [0, 1, 1]" by code_simp
  have b0: "\<forall>e \<in> set ex_nuggets_menu. entry_name e \<noteq> clean_input_name ''nuggets''"
    by code_simp
  have b1: "\<forall>e \<in> set ex_nuggets_menu.
              partial_match (clean_input_name ''nuggets'') (entry_name e) \<longrightarrow>
              score (clean_input_name ''nuggets'') (entry_name e) = 0"
    by code_simp
  from find_item_best_partial [OF a0, of ?pre "''S2''" ?mi ?post] a1
  have "find_item ex_sandwiches ''chicken sandwich'' = Some ''S2''" by blast
  moreover from find_item_best_partial [OF b0, of "[]" "[]" "ex_item [] []" "[]"] b1
  have "find_item ex_nuggets_menu ''nuggets'' = None" by blast
  ultimately show ?thesis using a2 by simp
qed


section \<open>The replies of add\_to\_order\<close>

lemma is_substring_map: "is_substring a b \<Longrightarrow> is_substring (map f a) (map f b)"
  by (induction b) (auto dest: map_mono_prefix [where f = f])

lemma is_substring_lower: "is_substring a b \<Longrightarrow> is_substring (lower a) (lower b)"
  unfolding lower_def by (rule is_substring_map)

lemma lower_milk_coffee: "lower ''milk'' = ''milk''" "lower ''coffee'' = ''coffee''"
  by code_simp+

lemma menu_items_start_new_order [simp]:
  "menu_items (snd (start_new_order now s)) = menu_items s"
  by (simp add: start_new_order_def menu_items_def Let_def)

lemma current_order_start_new_order [simp]:
  "current_order (snd (start_new_order now s)) = Some (fst (start_new_order now s))"
  by (simp add: start_new_order_def Let_def)

lemma add_item_checked_no_order:
  "fst (add_item_checked s iid qty sz instr) = Refused No_active_order \<longleftrightarrow> current_order s = None"
  by (auto simp: add_item_checked_def Let_def split: option.splits sum.splits)

lemma add_item_checked_keeps_order:
  "current_order s \<noteq> None \<Longrightarrow> current_order (snd (add_item_checked s iid qty sz instr)) \<noteq> None"
  by (auto simp: add_item_checked_def Let_def split: option.splits sum.splits)

text \<open>The lookup \<open>menu[item_id]\<close> of line 284 never fails.\<close>

lemma add_to_order_no_key_error: "fst (add_to_order now s item_name qty sz instr) \<noteq> Inl KeyError"
proof -
  define s1 where "s1 = (if current_order s = None then snd (start_new_order now s) else s)"
  show ?thesis
  proof (cases "find_item (menu_items s1) item_name")
    case None
    then show ?thesis by (simp add: add_to_order_def s1_def)
  next
    case (Some i)
    from find_item_in_menu [OF this] obtain mi where mi: "map_of (menu_items s1) i = Some mi"
      by (cases "map_of (menu_items s1) i") (auto simp: map_of_eq_None_iff)
    have "fst (add_item_checked s1 i qty sz instr) \<noteq> Raised KeyError"
      by (auto simp: add_item_checked_def Let_def calculate_total_def
               split: option.splits sum.splits dest: accumulate_total_error)
    then show ?thesis
      using Some mi
      unfolding add_to_order_def s1_def [symmetric] Let_def
      by (auto split: option.splits sum.splits list.splits prod.splits add_outcome.splits)
  qed
qed

text \<open>
  Claim C7. Let the request resolve to an item whose name contains "milk" or "coffee",
  in lower case or, as line 287 and line 290 test it, after the name is put in lower
  case. Then \<open>add_to_order\<close> answers with the question about milk or about coffee. An
  active order is left as it was, lines and total included; without one, the session
  gets the order that the tool starts first, which has no lines and the total zero.
\<close>

theorem add_to_order_asks_for_variant:
  assumes "find_item (menu_items s) item_name = Some iid"
    and "map_of (menu_items s) iid = Some mi"
    and "is_substring ''milk'' (name mi) \<or> is_substring ''coffee'' (name mi)
         \<or> is_substring ''milk'' (lower (name mi)) \<or> is_substring ''coffee'' (lower (name mi))"
  shows "add_to_order now s item_name qty sz instr =
           (Inr (if is_substring ''milk'' (lower (name mi)) then Clarify_milk else Clarify_coffee),
            if current_order s = None then s\<lparr>current_order := Some (fst (start_new_order now s))\<rparr>
            else s)
         \<and> items (fst (start_new_order now s)) = []
         \<and> order_total (fst (start_new_order now s)) = Finite 0"
proof -
  from assms(3) is_substring_lower [of "''milk''" "name mi"]
    is_substring_lower [of "''coffee''" "name mi"]
  have low: "is_substring ''milk'' (lower (name mi)) \<or> is_substring ''coffee'' (lower (name mi))"
    by (auto simp: lower_milk_coffee)
  define s1 where "s1 = (if current_order s = None then snd (start_new_order now s) else s)"
  have s1: "s1 = (if current_order s = None
                  then s\<lparr>current_order := Some (fst (start_new_order now s))\<rparr> else s)"
    by (simp add: s1_def start_new_order_def Let_def)
  have mn: "menu_items s1 = menu_items s" by (simp add: s1_def)
  have "add_to_order now s item_name qty sz instr =
          (Inr (if is_substring ''milk'' (lower (name mi)) then Clarify_milk else Clarify_coffee), s1)"
    using assms(1,2) low
    unfolding add_to_order_def s1_def [symmetric] Let_def mn by auto
  moreover have "items (fst (start_new_order now s)) = []"
    and "order_total (fst (start_new_order now s)) = Finite 0"
    by (simp_all add: start_new_order_def Let_def)
  ultimately show ?thesis using s1 by simp
qed

theorem add_to_order_asks_for_variant_witness:
  "add_to_order 3 (ex_session_with ex_coffee_menu (Some ex_order)) ''coffee'' 1 None None
     = (Inr Clarify_coffee, ex_session_with ex_coffee_menu (Some ex_order))
   \<and> items ex_order \<noteq> []"
proof -
  let ?s = "ex_session_with ex_coffee_menu (Some ex_order)"
  have a: "find_item (menu_items ?s) ''coffee'' = Some ''C1''" by code_simp
  have b: "map_of (menu_items ?s) ''C1'' = Some (ex_item ''C1'' ex_coffee_name)" by code_simp
  have c: "is_substring ''coffee'' (lower (name (ex_item ''C1'' ex_coffee_name)))" by code_simp
  have d: "\<not> is_substring ''milk'' (lower (name (ex_item ''C1'' ex_coffee_name)))" by code_simp
  have e: "current_order ?s \<noteq> None" by (simp add: ex_session_with_def)
  have f: "items ex_order \<noteq> []" by (simp add: ex_order_def)
  from add_to_order_asks_for_variant [OF a b, of 3 1 None None] c d e f
  show ?thesis by simp
qed

text \<open>
  Claim C10. When the session has no active order, \<open>add_to_order\<close> does what it does
  on the session in which \<open>start_new_order\<close> has just made an order without lines, in
  progress, with total zero. Whatever the session and the request, \<open>add_item_to_order\<close>
  is reached only with an active order, so its first guard does not fire there: the
  tool never gives the reply for the failure "no active order", and the session it
  leaves, by a reply or by an exception, has an active order.
\<close>

theorem add_to_order_starts_order:
  "(current_order s = None \<longrightarrow>
      add_to_order now s item_name qty sz instr
        = add_to_order now (snd (start_new_order now s)) item_name qty sz instr
      \<and> current_order (snd (start_new_order now s))
        = Some \<lparr>order_id = ''order_'' @ str_of_nat (length (orders_history s) + 1),
                items = [], created_at = now, status = ''in_progress'',
                order_total = Finite 0\<rparr>)
   \<and> fst (add_item_checked (if current_order s = None then snd (start_new_order now s) else s)
            iid qty sz instr) \<noteq> Refused No_active_order
   \<and> fst (add_to_order now s item_name qty sz instr) \<noteq> Inr (Could_not_add No_active_order)
   \<and> current_order (snd (add_to_order now s item_name qty sz instr)) \<noteq> None"
proof (intro conjI impI)
  assume "current_order s = None"
  then show "add_to_order now s item_name qty sz instr
        = add_to_order now (snd (start_new_order now s)) item_name qty sz instr"
    by (simp add: add_to_order_def)
next
  show "current_order (snd (start_new_order now s))
        = Some \<lparr>order_id = ''order_'' @ str_of_nat (length (orders_history s) + 1),
                items = [], created_at = now, status = ''in_progress'',
                order_total = Finite 0\<rparr>"
    by (simp add: start_new_order_def Let_def)
next
  define s1 where "s1 = (if current_order s = None then snd (start_new_order now s) else s)"
  have cur: "current_order s1 \<noteq> None" by (simp add: s1_def)
  then have no: "fst (add_item_checked s1 i qty sz instr) \<noteq> Refused No_active_order" for i
    by (simp add: add_item_checked_no_order)
  from no [of iid]
  show "fst (add_item_checked (if current_order s = None then snd (start_new_order now s) else s)
            iid qty sz instr) \<noteq> Refused No_active_order"
    by (simp add: s1_def)
  have keep: "current_order (snd (add_item_checked s1 i qty sz instr)) \<noteq> None" for i
    using cur by (rule add_item_checked_keeps_order)
  have both: "fst (add_to_order now s item_name qty sz instr) \<noteq> Inr (Could_not_add No_active_order)
      \<and> current_order (snd (add_to_order now s item_name qty sz instr)) \<noteq> None"
  proof (cases "find_item (menu_items s1) item_name")
    case None
    with cur show ?thesis
      unfolding add_to_order_def s1_def [symmetric] Let_def by simp
  next
    case (Some i)
    obtain out s2 where res: "add_item_checked s1 i qty sz instr = (out, s2)"
      by (cases "add_item_checked s1 i qty sz instr")
    from no [of i] keep [of i] res have "out \<noteq> Refused No_active_order"
      and "current_order s2 \<noteq> None" by simp_all
    with Some cur res show ?thesis
      unfolding add_to_order_def s1_def [symmetric] Let_def
      by (auto split: option.splits list.splits add_outcome.splits)
  qed
  from both show "fst (add_to_order now s item_name qty sz instr)
      \<noteq> Inr (Could_not_add No_active_order)" ..
  from both show "current_order (snd (add_to_order now s item_name qty sz instr)) \<noteq> None" ..
qed

theorem add_to_order_starts_order_witness:
  "current_order (ex_session_with ex_burger_menu None) = None
   \<and> add_to_order 5 (ex_session_with ex_burger_menu None) ''big mac'' 2 None None
       = add_to_order 5 (snd (start_new_order 5 (ex_session_with ex_burger_menu None)))
           ''big mac'' 2 None None
   \<and> fst (add_to_order 5 (ex_session_with ex_burger_menu None) ''big mac'' 2 None None)
       = Inr (Added 2 ''Big Mac'' None)
   \<and> fst (add_to_order 5 (ex_session_with ex_burger_menu None) ''big mac'' (10 ^ 309) None None)
       = Inl OverflowError"
proof -
  let ?s = "ex_session_with ex_burger_menu None"
  have a: "current_order ?s = None"
    by (simp add: ex_session_with_def)
  have mn: "menu_items ?s = ex_burger_menu"
    by (simp add: menu_items_def deref_def ex_session_with_def)
  have f: "find_item ex_burger_menu ''big mac'' = Some ''B1''" by code_simp
  have mi: "map_of ex_burger_menu ''B1'' = Some (ex_item ''B1'' ''Big Mac'')"
    by (simp add: ex_burger_menu_def)
  have nm: "\<not> is_substring ''milk'' (lower (name (ex_item ''B1'' ''Big Mac'')))"
    "\<not> is_substring ''coffee'' (lower (name (ex_item ''B1'' ''Big Mac'')))"
    by code_simp+
  have sz: "available_sizes (ex_item ''B1'' ''Big Mac'') = None"
    and nme: "name (ex_item ''B1'' ''Big Mac'') = ''Big Mac''"
    by (simp_all add: ex_item_def)
  have reply: "fst (add_to_order 5 ?s ''big mac'' q None None) =
      (case calculate_total (fst (start_new_order 5 ?s)\<lparr>items :=
           items (fst (start_new_order 5 ?s)) @
           [\<lparr>menu_item = ex_item ''B1'' ''Big Mac'', quantity = q, chosen_size = None,
             special_instructions = None\<rparr>]\<rparr>) of
         Inl e \<Rightarrow> Inl e | Inr t \<Rightarrow> Inr (Added q ''Big Mac'' None))" for q
    using a
    by (simp add: add_to_order_def Let_def mn f mi nm sz add_item_checked_def split: sum.splits)
      (simp add: nme)
  have b: "fst (add_to_order 5 ?s ''big mac'' 2 None None) = Inr (Added 2 ''Big Mac'' None)"
    by (simp add: reply calculate_total_def start_new_order_def ex_item_def float_eval)
  have "(2 :: int) ^ 1024 \<le> 10 ^ 309" by simp
  then have "calculate_total (fst (start_new_order 5 ?s)\<lparr>items :=
           items (fst (start_new_order 5 ?s)) @
           [\<lparr>menu_item = ex_item ''B1'' ''Big Mac'', quantity = 10 ^ 309, chosen_size = None,
             special_instructions = None\<rparr>]\<rparr>) = Inl OverflowError"
    by (intro calculate_total_overflow) simp
  then have c: "fst (add_to_order 5 ?s ''big mac'' (10 ^ 309) None None) = Inl OverflowError"
    by (simp only: reply sum.case)
  from add_to_order_starts_order [of ?s 5 "''big mac''" 2 None None] a b c
  show ?thesis by blast
qed

end
